theory Spec2Isabelle
  imports Main "HOL-Library.Sublist" "HOL-Library.AList"
begin

section \<open>Strings and JavaScript truthiness\<close>

text \<open>
  A JavaScript property that may be \<^verbatim>\<open>undefined\<close> or \<^verbatim>\<open>null\<close> is a
  \<^typ>\<open>string option\<close>. In a boolean position (\<^verbatim>\<open>t.category && ...\<close>,
  \<^verbatim>\<open>t.notes || ''\<close>) the empty string counts as absent as well.
\<close>

definition truthy :: "string option \<Rightarrow> bool" where
  "truthy v = (case v of None \<Rightarrow> False | Some s \<Rightarrow> s \<noteq> [])"

definition or_empty :: "string option \<Rightarrow> string" where
  "or_empty v = (case v of None \<Rightarrow> [] | Some s \<Rightarrow> s)"

text \<open>\<^verbatim>\<open>String.prototype.includes\<close>: does \<open>sub\<close> occur in \<open>s\<close> at some position.\<close>

fun str_includes :: "string \<Rightarrow> string \<Rightarrow> bool" where
  "str_includes [] sub = (sub = [])"
| "str_includes (c # cs) sub = (prefix sub (c # cs) \<or> str_includes cs sub)"

text \<open>
  \<^verbatim>\<open>String.prototype.toLowerCase\<close> on the ASCII letters, which is all that the
  test \<^verbatim>\<open>name.toLowerCase().includes('hp')\<close> can observe.
\<close>

definition lower_char :: "char \<Rightarrow> char" where
  "lower_char c =
     (case map_of (zip ''ABCDEFGHIJKLMNOPQRSTUVWXYZ'' ''abcdefghijklmnopqrstuvwxyz'') c of
        None \<Rightarrow> c | Some l \<Rightarrow> l)"

definition toLowerCase :: "string \<Rightarrow> string" where
  "toLowerCase s = map lower_char s"

section \<open>Data model\<close>

text \<open>A transaction as the ledger API returns it (the fields the processor reads).\<close>

record transaction =
  txn_id :: string
  payee :: "string option"
  amount :: int
  date :: string
  category :: "string option"
  cleared :: bool
  tx_notes :: "string option"
  account :: string

datatype status = Pending | Submitted | Paid | Failed

text \<open>
  An entry of \<^verbatim>\<open>state.transactions\<close>, as \<^verbatim>\<open>processTransaction\<close> creates and
  updates it. Properties that are assigned later (\<^verbatim>\<open>last_attempt\<close>,
  \<^verbatim>\<open>submitted_at\<close>, \<^verbatim>\<open>xano_id\<close>, \<^verbatim>\<open>error\<close>) are optional.
\<close>

record tracked =
  tr_id :: string
  tr_payee :: "string option"
  tr_amount :: int
  tr_date :: string
  tr_category :: "string option"
  status :: status
  created_at :: string
  attempts :: nat
  last_attempt :: "string option"
  submitted_at :: "string option"
  xano_id :: "string option"
  error :: "string option"

record stats =
  total_processed :: nat
  total_submitted :: nat
  total_paid :: nat
  total_failed :: nat

text \<open>
  \<^verbatim>\<open>this.state\<close>. The \<^verbatim>\<open>transactions\<close> object is an association list in
  insertion order; a property is read with \<^const>\<open>map_of\<close> and written with
  \<^const>\<open>AList.update\<close> (replace in place, or append a new key).
\<close>

record processing_state =
  transactions :: "(string \<times> tracked) list"
  last_processing :: "string option"
  statistics :: stats

definition default_state :: processing_state where
  "default_state =
     \<lparr>transactions = [], last_processing = None,
      statistics = \<lparr>total_processed = 0, total_submitted = 0, total_paid = 0, total_failed = 0\<rparr>\<rparr>"

text \<open>
  The part of \<^verbatim>\<open>this.config\<close> that the pipeline reads.
  \<^verbatim>\<open>hp_max_transactions_per_batch\<close> is \<^verbatim>\<open>parseInt(...) || 50\<close>: an integer that is
  never zero but may be negative.
\<close>

record config =
  hp_category_group_id :: string
  hp_dry_run_mode :: bool
  hp_max_transactions_per_batch :: int

text \<open>
  \<^verbatim>\<open>parseInt(process.env.HP_MAX_TRANSACTIONS_PER_BATCH) || 50\<close>, on the outcome of
  \<^verbatim>\<open>parseInt\<close> (\<open>None\<close> is \<^verbatim>\<open>NaN\<close>).
\<close>

definition batch_setting :: "int option \<Rightarrow> int" where
  "batch_setting parsed = (case parsed of None \<Rightarrow> 50 | Some n \<Rightarrow> if n = 0 then 50 else n)"

section \<open>The collaborators\<close>

record category_group =
  grp_id :: string
  grp_name :: string

record category_rec =
  cat_id :: string
  cat_name :: string
  cat_group_id :: string

record account_rec =
  acc_id :: string
  acc_name :: string
  offbudget :: bool
  acc_closed :: bool

text \<open>
  What the ledger service, the export service, the file system and the clock answer
  during one run. A call that throws (or a promise that rejects) is \<open>Inl\<close> of the
  error message, or \<open>Some\<close> of it where the call returns nothing.
  \<open>budget_init\<close> is the outcome of \<^verbatim>\<open>initializeActualBudget\<close>;
  \<open>getTransactions\<close> is asked with an account identifier (the date range of the last
  30 days is fixed for the run); \<open>updateTransaction\<close> with a transaction identifier
  and the new notes; \<open>makeXanoRequest\<close> is the outcome of the \<^verbatim>\<open>POST /transactions\<close>
  for a transaction, \<open>Inr\<close> of the \<^verbatim>\<open>id\<close> of the response if it has one;
  \<open>writeFileSync\<close> is the outcome of writing the state file; \<open>now\<close> is the
  reading of the clock, taken as one instant for the run.
\<close>

text \<open>
  \<^verbatim>\<open>fs.writeFileSync\<close> opens the state file for writing, which truncates it, and then
  writes the document into it; there is no temporary file and no rename. \<open>Written\<close>:
  the call returns. \<open>Open_failed msg\<close>: the open throws, and the file is as it was.
  \<open>Write_failed msg parse_msg\<close>: a write throws after the truncation; the old
  content is gone and what is left is a cut document, which is not JSON
  (\<open>parse_msg\<close> is what \<^verbatim>\<open>JSON.parse\<close> says of it).
\<close>

datatype write_outcome = Written | Open_failed string | Write_failed string string

record env =
  budget_init :: "string option"
  getCategoryGroups :: "string + category_group list"
  getCategories :: "string + category_rec list"
  getAccounts :: "string + account_rec list"
  getTransactions :: "string \<Rightarrow> string + transaction list"
  updateTransaction :: "string \<Rightarrow> string \<Rightarrow> string option"
  makeXanoRequest :: "transaction \<Rightarrow> string + string option"
  writeFileSync :: write_outcome
  now :: string

datatype level = Info | Warning | Error

text \<open>
  What a run does to the outside, in order. \<open>Log\<close> carries the warning and error
  lines; \<open>Processing\<close> is the info line that opens \<^verbatim>\<open>processTransaction\<close>;
  \<open>XanoRequest\<close> is a call of the Export Client for a transaction identifier;
  \<open>UpdateTransaction\<close> is a notes update that the ledger accepted; \<open>Shutdown\<close> closes
  the ledger session. The other info and debug lines and the sensor updates are not
  recorded: nothing in the pipeline reads them back, and a call of \<^verbatim>\<open>log\<close> is
  taken to return normally (the sensor update it starts is asynchronous and catches
  its own errors).
\<close>

datatype effect =
    Log level string
  | Processing string
  | XanoRequest string
  | UpdateTransaction string string
  | Shutdown

text \<open>
  The state file \<^verbatim>\<open>/data/hp-state.json\<close>: absent, present but unreadable, not JSON,
  the JSON value \<^verbatim>\<open>null\<close>, or a document that \<^verbatim>\<open>saveState\<close> wrote. Any other JSON
  document would be returned by \<^verbatim>\<open>loadState\<close> as it is; only documents of the shape
  of a state are represented here.
\<close>

datatype state_file =
    No_file
  | Unreadable string
  | Invalid_json string
  | Json_null
  | Snapshot processing_state

section \<open>State Store\<close>

text \<open>
  The body of the \<^verbatim>\<open>try\<close> in \<^verbatim>\<open>loadState\<close>: \<open>Inl\<close> is a throw, \<open>Inr None\<close>
  falls out of the \<^verbatim>\<open>if\<close>, \<open>Inr (Some s)\<close> returns the parsed document. Reading
  \<^verbatim>\<open>state.transactions\<close> of \<^verbatim>\<open>null\<close> is a TypeError.
\<close>

definition loadState_try :: "state_file \<Rightarrow> string + processing_state option" where
  "loadState_try f =
     (case f of
        No_file \<Rightarrow> Inr None
      | Unreadable msg \<Rightarrow> Inl msg
      | Invalid_json msg \<Rightarrow> Inl msg
      | Json_null \<Rightarrow> Inl ''Cannot read properties of null (reading 'transactions')''
      | Snapshot s \<Rightarrow> Inr (Some s))"

definition loadState :: "state_file \<Rightarrow> processing_state \<times> effect list" where
  "loadState f =
     (case loadState_try f of
        Inr (Some s) \<Rightarrow> (s, [])
      | Inr None \<Rightarrow> (default_state, [])
      | Inl msg \<Rightarrow> (default_state, [Log Warning (''Failed to load state file: '' @ msg)]))"

text \<open>
  \<^verbatim>\<open>saveState\<close> stamps \<^verbatim>\<open>last_processing\<close> first and then writes the file in
  place; a failed write is logged, and the file it leaves is the old one only when the
  open itself failed, and a cut document otherwise.
\<close>

definition saveState :: "env \<Rightarrow> processing_state \<Rightarrow> state_file \<Rightarrow>
    processing_state \<times> state_file \<times> effect list" where
  "saveState e s f =
     (let s' = s\<lparr>last_processing := Some (now e)\<rparr>
      in case writeFileSync e of
           Written \<Rightarrow> (s', Snapshot s', [])
         | Open_failed msg \<Rightarrow> (s', f, [Log Error (''Failed to save state: '' @ msg)])
         | Write_failed msg parse_msg \<Rightarrow>
             (s', Invalid_json parse_msg, [Log Error (''Failed to save state: '' @ msg)]))"

section \<open>Eligibility Filter and fetching\<close>

text \<open>The search of \<^verbatim>\<open>categoryGroups.find\<close> for the HP group.\<close>

definition is_hp_group :: "config \<Rightarrow> category_group \<Rightarrow> bool" where
  "is_hp_group cfg g =
     (grp_id g = hp_category_group_id cfg \<or> grp_name g = ''HP'' \<or>
      str_includes (toLowerCase (grp_name g)) ''hp'')"

text \<open>
  The per-account test \<^verbatim>\<open>t.category && hpCategoryIds.includes(t.category)\<close> and the
  test of step 5 (cleared, and neither tag in \<^verbatim>\<open>transaction.notes || ''\<close>).
\<close>

definition hp_category :: "string list \<Rightarrow> transaction \<Rightarrow> bool" where
  "hp_category hpCategoryIds t =
     (truthy (category t) \<and> or_empty (category t) \<in> set hpCategoryIds)"

definition eligible :: "transaction \<Rightarrow> bool" where
  "eligible t =
     (if \<not> cleared t then False
      else if str_includes (or_empty (tx_notes t)) ''#HP-Submitted'' \<or>
              str_includes (or_empty (tx_notes t)) ''#HP-Paid'' then False
      else True)"

text \<open>
  The loop over the on-budget accounts: \<open>allTransactions\<close> grows by the HP transactions
  of each account whose fetch succeeds; a failed fetch is logged and the loop goes on.
\<close>

fun fetch_accounts :: "env \<Rightarrow> string list \<Rightarrow> account_rec list \<Rightarrow> transaction list \<Rightarrow>
    effect list \<Rightarrow> transaction list \<times> effect list" where
  "fetch_accounts e hpCategoryIds [] allTransactions fx = (allTransactions, fx)"
| "fetch_accounts e hpCategoryIds (a # accts) allTransactions fx =
     (case getTransactions e (acc_id a) of
        Inl msg \<Rightarrow>
          fetch_accounts e hpCategoryIds accts allTransactions
            (fx @ [Log Warning (''Failed to fetch transactions for account '' @ acc_name a @
                                 '': '' @ msg)])
      | Inr ts \<Rightarrow>
          (let hpTransactions = filter (hp_category hpCategoryIds) ts
           in fetch_accounts e hpCategoryIds accts
                (if length hpTransactions > 0 then allTransactions @ hpTransactions
                 else allTransactions) fx))"

definition fetch_failed :: "string \<Rightarrow> (string + transaction list) \<times> effect list" where
  "fetch_failed msg = (Inl msg, [Log Error (''Failed to fetch HP transactions: '' @ msg)])"

text \<open>
  \<^verbatim>\<open>fetchHPTransactions\<close>: \<open>Inl\<close> is the rethrown error of a failed listing of
  groups, categories or accounts; \<open>Inr\<close> is the list of eligible transactions.
\<close>

definition fetchHPTransactions :: "config \<Rightarrow> env \<Rightarrow> (string + transaction list) \<times> effect list" where
  "fetchHPTransactions cfg e =
     (case getCategoryGroups e of
        Inl msg \<Rightarrow> fetch_failed msg
      | Inr categoryGroups \<Rightarrow>
          (case find (is_hp_group cfg) categoryGroups of
             None \<Rightarrow>
               (Inr [], [Log Error (''HP category group not found. Looking for ID: '' @
                                    hp_category_group_id cfg)])
           | Some hpCategoryGroup \<Rightarrow>
               (case getCategories e of
                  Inl msg \<Rightarrow> fetch_failed msg
                | Inr allCategories \<Rightarrow>
                    (let hpCategories =
                           filter (\<lambda>c. cat_group_id c = grp_id hpCategoryGroup) allCategories
                     in if length hpCategories = 0
                        then (Inr [], [Log Warning ''No categories found in HP group''])
                        else
                          (case getAccounts e of
                             Inl msg \<Rightarrow> fetch_failed msg
                           | Inr accts \<Rightarrow>
                               (let onBudgetAccounts =
                                      filter (\<lambda>a. \<not> offbudget a \<and> \<not> acc_closed a) accts;
                                    hpCategoryIds = map cat_id hpCategories;
                                    (allTransactions, fx) =
                                      fetch_accounts e hpCategoryIds onBudgetAccounts [] []
                                in (Inr (filter eligible allTransactions), fx)))))))"

section \<open>Reconciliation Engine\<close>

text \<open>
  \<^verbatim>\<open>submitToXano\<close> never throws: a rejected request becomes
  \<^verbatim>\<open>{success: false, error}\<close> (\<open>Inl\<close>), a resolved one
  \<^verbatim>\<open>{success: true, xano_id}\<close> (\<open>Inr\<close>).
\<close>

definition submitToXano :: "env \<Rightarrow> transaction \<Rightarrow> (string + string option) \<times> effect list" where
  "submitToXano e t =
     (case makeXanoRequest e t of
        Inr response_id \<Rightarrow> (Inr response_id, [XanoRequest (txn_id t)])
      | Inl msg \<Rightarrow> (Inl msg, [XanoRequest (txn_id t)]))"

text \<open>\<^verbatim>\<open>addNoteTag\<close> never throws either: a failed update is logged.\<close>

definition addNoteTag :: "env \<Rightarrow> transaction \<Rightarrow> string \<Rightarrow> effect list" where
  "addNoteTag e t tag =
     (let currentNotes = or_empty (tx_notes t);
          newNotes = (if currentNotes \<noteq> [] then currentNotes @ '' '' @ tag else tag)
      in case updateTransaction e (txn_id t) newNotes of
           None \<Rightarrow> [UpdateTransaction (txn_id t) newNotes]
         | Some msg \<Rightarrow>
             [Log Error (''Failed to add tag to transaction '' @ txn_id t @ '': '' @ msg)])"

definition new_tracked :: "env \<Rightarrow> transaction \<Rightarrow> tracked" where
  "new_tracked e t =
     \<lparr>tr_id = txn_id t, tr_payee = payee t, tr_amount = amount t, tr_date = date t,
      tr_category = category t, status = Pending, created_at = now e, attempts = 0,
      last_attempt = None, submitted_at = None, xano_id = None, error = None\<rparr>"

text \<open>
  \<^verbatim>\<open>processTransaction\<close>. The result is \<open>Inr message\<close> for
  \<^verbatim>\<open>{success: true, message}\<close> and \<open>Inl error\<close> for \<^verbatim>\<open>{success: false, error}\<close>.
  Neither \<^verbatim>\<open>submitToXano\<close> nor \<^verbatim>\<open>addNoteTag\<close> throws, so the outer
  \<^verbatim>\<open>catch\<close> has no branch here. The run counters of \<^verbatim>\<open>this.counters\<close> are
  recomputed from the state by \<^verbatim>\<open>updateCounters\<close> and are left out.
\<close>

definition processTransaction :: "config \<Rightarrow> env \<Rightarrow> processing_state \<Rightarrow> transaction \<Rightarrow>
    (string + string) \<times> processing_state \<times> effect list" where
  "processTransaction cfg e s t =
     (let transactionId = txn_id t;
          existing = (case map_of (transactions s) transactionId of
                        None \<Rightarrow> new_tracked e t
                      | Some tr \<Rightarrow> tr);
          trackedTransaction =
            existing\<lparr>attempts := attempts existing + 1, last_attempt := Some (now e)\<rparr>;
          store = (\<lambda>tr. s\<lparr>transactions := AList.update transactionId tr (transactions s)\<rparr>)
      in if hp_dry_run_mode cfg then
           (Inr ''Dry run successful'',
            store (trackedTransaction\<lparr>status := Submitted, submitted_at := Some (now e)\<rparr>),
            [Processing transactionId])
         else
           (case submitToXano e t of
              (Inr response_id, fx) \<Rightarrow>
                (Inr ''Transaction submitted successfully'',
                 store (trackedTransaction\<lparr>status := Submitted, submitted_at := Some (now e),
                                            xano_id := response_id\<rparr>),
                 [Processing transactionId] @ fx @ addNoteTag e t ''#HP-Submitted'')
            | (Inl err, fx) \<Rightarrow>
                (Inl err,
                 store (trackedTransaction\<lparr>status := Failed, error := Some err\<rparr>),
                 [Processing transactionId] @ fx @
                 [Log Error (''Failed to submit transaction '' @ transactionId @ '': '' @ err)])))"

record run_result =
  processed :: nat
  submitted :: nat
  failed :: nat

definition no_result :: run_result where
  "no_result = \<lparr>processed = 0, submitted = 0, failed = 0\<rparr>"

definition tally :: "(string + string) \<Rightarrow> run_result \<Rightarrow> run_result" where
  "tally res r =
     (case res of
        Inr _ \<Rightarrow> r\<lparr>processed := processed r + 1, submitted := submitted r + 1\<rparr>
      | Inl _ \<Rightarrow> r\<lparr>processed := processed r + 1, failed := failed r + 1\<rparr>)"

text \<open>The \<^verbatim>\<open>for\<close> loop of \<^verbatim>\<open>processAllTransactions\<close> over the batch.\<close>

fun process_loop :: "config \<Rightarrow> env \<Rightarrow> transaction list \<Rightarrow> processing_state \<Rightarrow> run_result \<Rightarrow>
    effect list \<Rightarrow> processing_state \<times> run_result \<times> effect list" where
  "process_loop cfg e [] s r fx = (s, r, fx)"
| "process_loop cfg e (t # ts) s r fx =
     (case processTransaction cfg e s t of
        (res, s', fx') \<Rightarrow> process_loop cfg e ts s' (tally res r) (fx @ fx'))"

text \<open>
  \<^verbatim>\<open>Array.prototype.slice(0, end)\<close> for an integer \<open>end\<close>: a negative \<open>end\<close> counts
  from the end of the array.
\<close>

definition slice0 :: "'a list \<Rightarrow> int \<Rightarrow> 'a list" where
  "slice0 xs end_ix =
     (let n = int (length xs);
          k = (if end_ix < 0 then max (n + end_ix) 0 else min end_ix n)
      in take (nat k) xs)"

definition transactionsToProcess :: "config \<Rightarrow> transaction list \<Rightarrow> transaction list" where
  "transactionsToProcess cfg txs =
     (let batchSize = min (int (length txs)) (hp_max_transactions_per_batch cfg)
      in slice0 txs batchSize)"

definition add_statistics :: "run_result \<Rightarrow> processing_state \<Rightarrow> processing_state" where
  "add_statistics r s =
     s\<lparr>statistics := (statistics s)
         \<lparr>total_processed := total_processed (statistics s) + processed r,
          total_submitted := total_submitted (statistics s) + submitted r,
          total_failed := total_failed (statistics s) + failed r\<rparr>\<rparr>"

text \<open>
  What one run leaves behind: the value it returns (\<open>Inl\<close> is the error it rethrows),
  the state in memory, the state file, and its effects.
\<close>

record outcome =
  result :: "string + run_result"
  state :: processing_state
  disk :: state_file
  effects :: "effect list"

definition run_failed :: "string \<Rightarrow> processing_state \<Rightarrow> state_file \<Rightarrow> effect list \<Rightarrow> outcome" where
  "run_failed msg s f fx =
     \<lparr>result = Inl msg, state = s, disk = f,
      effects = fx @ [Log Error (''HP transaction processing failed: '' @ msg), Shutdown]\<rparr>"

definition processAllTransactions :: "config \<Rightarrow> env \<Rightarrow> processing_state \<Rightarrow> state_file \<Rightarrow> outcome" where
  "processAllTransactions cfg e s f =
     (case budget_init e of
        Some msg \<Rightarrow>
          run_failed msg s f [Log Error (''Failed to initialize Actual Budget: '' @ msg)]
      | None \<Rightarrow>
          (case fetchHPTransactions cfg e of
             (Inl msg, fx) \<Rightarrow> run_failed msg s f fx
           | (Inr txs, fx) \<Rightarrow>
               if length txs = 0
               then \<lparr>result = Inr no_result, state = s, disk = f, effects = fx @ [Shutdown]\<rparr>
               else
                 (let (s1, r, fx1) = process_loop cfg e (transactionsToProcess cfg txs) s no_result [];
                      s2 = add_statistics r s1;
                      (s3, f', fx2) = saveState e s2 f
                  in \<lparr>result = Inr r, state = s3, disk = f',
                      effects = fx @ fx1 @ fx2 @ [Shutdown]\<rparr>)))"

text \<open>
  \<^verbatim>\<open>main\<close>: every run is a fresh process that loads the state file, runs the
  pipeline once and exits.
\<close>

definition main :: "config \<Rightarrow> env \<Rightarrow> state_file \<Rightarrow> outcome" where
  "main cfg e f =
     (case loadState f of
        (s, fx0) \<Rightarrow>
          (let out = processAllTransactions cfg e s f
           in out\<lparr>effects := fx0 @ effects out\<rparr>))"

section \<open>The dashboard's manual trigger\<close>

text \<open>
  The handler of \<^verbatim>\<open>POST /dashboard-api/hp-process\<close>. The server keeps no record of
  the processors it started; \<open>running\<close> counts the child processes that are alive, for
  the statement of the properties only. The handler spawns
  \<^verbatim>\<open>node /opt/hp-processor.js --manual\<close> on every request and answers when that child
  closes, or after 60 seconds.
\<close>

record dashboard_server =
  running :: nat

definition hp_process_post :: "dashboard_server \<Rightarrow> dashboard_server" where
  "hp_process_post srv = srv\<lparr>running := running srv + 1\<rparr>"

text \<open>
  How the request ends: the child closes with an exit code and its output (\<open>parses\<close>
  says whether the last line of the output is JSON), the timer fires first, or
  \<^verbatim>\<open>spawn\<close> itself throws.
\<close>

datatype child_end = Closed int string bool | Timer_fired | Spawn_threw

definition hp_process_status :: "child_end \<Rightarrow> nat" where
  "hp_process_status c =
     (case c of
        Closed code output parses \<Rightarrow>
          if code = 0 \<and> output \<noteq> [] then (if parses then 200 else 500) else 500
      | Timer_fired \<Rightarrow> 408
      | Spawn_threw \<Rightarrow> 500)"

text \<open>
  The handler of the add-on's bundled dashboard (\<^verbatim>\<open>rootfs/opt/dashboard/server.js\<close>)
  starts nothing and answers every request with a fixed result.
\<close>

definition hp_process_mock :: "nat \<times> run_result" where
  "hp_process_mock = (200, \<lparr>processed = 0, submitted = 0, failed = 0\<rparr>)"

section \<open>Notions of the specification\<close>

text \<open>
  The transactions an account contributes to a run, and the warning it leaves when its
  fetch fails.
\<close>

definition account_transactions :: "env \<Rightarrow> account_rec \<Rightarrow> transaction list" where
  "account_transactions e a = (case getTransactions e (acc_id a) of Inl _ \<Rightarrow> [] | Inr ts \<Rightarrow> ts)"

definition account_warning :: "env \<Rightarrow> account_rec \<Rightarrow> effect list" where
  "account_warning e a =
     (case getTransactions e (acc_id a) of
        Inl msg \<Rightarrow>
          [Log Warning (''Failed to fetch transactions for account '' @ acc_name a @ '': '' @ msg)]
      | Inr _ \<Rightarrow> [])"

definition fetched :: "env \<Rightarrow> account_rec list \<Rightarrow> transaction list" where
  "fetched e accts = concat (map (account_transactions e) accts)"

text \<open>The notes hold one of the two markers, at some position.\<close>

definition carries_marker :: "transaction \<Rightarrow> bool" where
  "carries_marker t =
     (\<exists>n pre post. tx_notes t = Some n \<and>
        (n = pre @ ''#HP-Submitted'' @ post \<or> n = pre @ ''#HP-Paid'' @ post))"

text \<open>
  The three conditions of the Eligibility Filter. A category that is the empty string
  counts as no category, as it does for the code.
\<close>

definition selected :: "string list \<Rightarrow> transaction \<Rightarrow> bool" where
  "selected ids t =
     (cleared t \<and> (\<exists>c. category t = Some c \<and> c \<noteq> [] \<and> c \<in> set ids) \<and> \<not> carries_marker t)"

text \<open>The identifiers a run attempts, and those it sends to the Export Client, in order.\<close>

fun attempted :: "effect list \<Rightarrow> string list" where
  "attempted [] = []"
| "attempted (Processing i # fx) = i # attempted fx"
| "attempted (_ # fx) = attempted fx"

fun xano_calls :: "effect list \<Rightarrow> string list" where
  "xano_calls [] = []"
| "xano_calls (XanoRequest i # fx) = i # xano_calls fx"
| "xano_calls (_ # fx) = xano_calls fx"

text \<open>The status recorded for an identifier, if it is tracked.\<close>

definition status_of :: "processing_state \<Rightarrow> string \<Rightarrow> status option" where
  "status_of s i = map_option status (map_of (transactions s) i)"




text \<open>The Export Client accepts the submission of a transaction.\<close>

definition accepted :: "env \<Rightarrow> transaction \<Rightarrow> bool" where
  "accepted e t = (case makeXanoRequest e t of Inr _ \<Rightarrow> True | Inl _ \<Rightarrow> False)"

text \<open>The notes that \<^const>\<open>addNoteTag\<close> sends for the tag \<^verbatim>\<open>#HP-Submitted\<close>.\<close>

definition tagged_notes :: "transaction \<Rightarrow> string" where
  "tagged_notes t =
     (if or_empty (tx_notes t) \<noteq> [] then or_empty (tx_notes t) @ '' '' @ ''#HP-Submitted''
      else ''#HP-Submitted'')"



section \<open>Example data\<close>

definition demo_cfg :: config where
  "demo_cfg = \<lparr>hp_category_group_id = ''g1'', hp_dry_run_mode = False,
               hp_max_transactions_per_batch = 50\<rparr>"

definition demo_tx :: "string \<Rightarrow> string option \<Rightarrow> bool \<Rightarrow> string option \<Rightarrow> transaction" where
  "demo_tx i c cl n =
     \<lparr>txn_id = i, payee = Some ''Stationer'', amount = - 1250, date = ''2024-01-05'',
      category = c, cleared = cl, tx_notes = n, account = ''acc1''\<rparr>"

definition demo_accounts :: "account_rec list" where
  "demo_accounts =
     [\<lparr>acc_id = ''acc1'', acc_name = ''Checking'', offbudget = False, acc_closed = False\<rparr>,
      \<lparr>acc_id = ''acc2'', acc_name = ''Savings'', offbudget = False, acc_closed = False\<rparr>]"

text \<open>
  A ledger with the HP group, one category in it and two on-budget accounts: the first
  returns \<open>txs\<close>, the fetch of the second fails. The export service accepts every
  submission and the ledger every tag.
\<close>

definition demo_env :: "transaction list \<Rightarrow> env" where
  "demo_env txs =
     \<lparr>budget_init = None,
      getCategoryGroups = Inr [\<lparr>grp_id = ''g1'', grp_name = ''HP''\<rparr>],
      getCategories = Inr [\<lparr>cat_id = ''c1'', cat_name = ''Supplies'', cat_group_id = ''g1''\<rparr>],
      getAccounts = Inr demo_accounts,
      getTransactions = (\<lambda>a. if a = ''acc1'' then Inr txs else Inl ''connection reset''),
      updateTransaction = (\<lambda>i n. None),
      makeXanoRequest = (\<lambda>t. Inr (Some (''x-'' @ txn_id t))),
      writeFileSync = Written,
      now = ''2024-01-10T06:00:00.000Z''\<rparr>"

definition t1 :: transaction where
  "t1 = demo_tx ''t1'' (Some ''c1'') True None"

definition t2 :: transaction where
  "t2 = demo_tx ''t2'' (Some ''c1'') True (Some ''toner'')"

definition t3 :: transaction where
  "t3 = demo_tx ''t3'' (Some ''c1'') True (Some [])"

definition t_paid :: transaction where
  "t_paid = demo_tx ''t4'' (Some ''c1'') True (Some ''refund #HP-Paid in March'')"

definition t_uncategorised :: transaction where
  "t_uncategorised = demo_tx ''t5'' None True None"

definition t_uncleared :: transaction where
  "t_uncleared = demo_tx ''t6'' (Some ''c1'') False None"

definition t_tagged :: transaction where
  "t_tagged = demo_tx ''t1'' (Some ''c1'') True (Some ''#HP-Submitted'')"

text \<open>The same ledger when it refuses every notes update, and when the export service is down.\<close>

definition demo_env_tag_fails :: "transaction list \<Rightarrow> env" where
  "demo_env_tag_fails txs = (demo_env txs)\<lparr>updateTransaction := (\<lambda>i n. Some ''network error'')\<rparr>"


text \<open>The same ledger on a host whose disk is full: the state file is opened and cut.\<close>

definition demo_env_disk_full :: "transaction list \<Rightarrow> env" where
  "demo_env_disk_full txs =
     (demo_env txs)\<lparr>writeFileSync :=
        Write_failed ''ENOSPC: no space left on device'' ''Unexpected end of JSON input''\<rparr>"

section \<open>Strings\<close>

lemma str_includes_iff: "str_includes s sub \<longleftrightarrow> (\<exists>pre post. s = pre @ sub @ post)"
proof (induction s)
  case Nil
  show ?case by auto
next
  case (Cons c cs)
  have "(\<exists>pre post. c # cs = pre @ sub @ post) \<longleftrightarrow>
        (\<exists>post. c # cs = sub @ post) \<or> (\<exists>pre post. cs = pre @ sub @ post)"
  proof
    assume "\<exists>pre post. c # cs = pre @ sub @ post"
    then obtain pre post where e: "c # cs = pre @ sub @ post" by blast
    show "(\<exists>post. c # cs = sub @ post) \<or> (\<exists>pre post. cs = pre @ sub @ post)"
    proof (cases pre)
      case Nil
      with e show ?thesis by auto
    next
      case (Cons p ps)
      with e have "cs = ps @ sub @ post" by simp
      then show ?thesis by blast
    qed
  next
    assume "(\<exists>post. c # cs = sub @ post) \<or> (\<exists>pre post. cs = pre @ sub @ post)"
    then show "\<exists>pre post. c # cs = pre @ sub @ post"
    proof
      assume "\<exists>post. c # cs = sub @ post"
      then obtain post where "c # cs = [] @ sub @ post" by auto
      then show ?thesis by blast
    next
      assume "\<exists>pre post. cs = pre @ sub @ post"
      then obtain pre post where "c # cs = (c # pre) @ sub @ post" by auto
      then show ?thesis by blast
    qed
  qed
  with Cons show ?case by (simp add: prefix_def)
qed

section \<open>The Eligibility Filter\<close>

lemma carries_marker_includes:
  "carries_marker t \<longleftrightarrow>
     str_includes (or_empty (tx_notes t)) ''#HP-Submitted'' \<or>
     str_includes (or_empty (tx_notes t)) ''#HP-Paid''"
proof (cases "tx_notes t")
  case None
  then show ?thesis
    by (simp add: carries_marker_def or_empty_def str_includes_iff)
next
  case (Some n)
  then show ?thesis
    by (auto simp: carries_marker_def or_empty_def str_includes_iff)
qed

lemma eligible_iff: "eligible t \<longleftrightarrow> cleared t \<and> \<not> carries_marker t"
  by (simp add: eligible_def carries_marker_includes)

lemma hp_category_iff:
  "hp_category ids t \<longleftrightarrow> (\<exists>c. category t = Some c \<and> c \<noteq> [] \<and> c \<in> set ids)"
  by (cases "category t") (simp_all add: hp_category_def truthy_def or_empty_def)

lemma selected_iff: "selected ids t \<longleftrightarrow> hp_category ids t \<and> eligible t"
  by (auto simp: selected_def eligible_iff hp_category_iff)

lemma fetch_accounts_eq:
  "fetch_accounts e ids accts allT fx =
     (allT @ concat (map (\<lambda>a. filter (hp_category ids) (account_transactions e a)) accts),
      fx @ concat (map (account_warning e) accts))"
proof (induction accts arbitrary: allT fx)
  case Nil
  show ?case by simp
next
  case (Cons a accts)
  show ?case
  proof (cases "getTransactions e (acc_id a)")
    case (Inl msg)
    then show ?thesis
      by (simp add: Cons.IH account_transactions_def account_warning_def)
  next
    case (Inr ts)
    then show ?thesis
      by (simp add: Cons.IH account_transactions_def account_warning_def Let_def)
  qed
qed

lemma candidates_eq:
  "fst (fetch_accounts e ids accts [] []) = filter (hp_category ids) (fetched e accts)"
  by (simp add: fetch_accounts_eq fetched_def filter_concat comp_def)

text \<open>
  C2. Over the transactions fetched from the accounts, the Eligibility Filter (the
  category test of the account loop followed by the test of step 5) keeps exactly the
  transactions that are cleared, have a category of the HP group and carry neither
  \<^verbatim>\<open>#HP-Submitted\<close> nor \<^verbatim>\<open>#HP-Paid\<close> anywhere in their notes. The result is a
  subsequence of the input, so the input order is kept; a transaction without category
  is never selected; one without notes that passes the other two tests is selected; one
  whose notes hold a marker between any \<open>pre\<close> and \<open>post\<close> is never selected.
  The category test asks for a category that is not the empty string, which changes
  nothing when no category identifier of the group is empty.
\<close>

theorem eligibility_filter_exact:
  "filter eligible (fst (fetch_accounts e ids accts [] [])) = filter (selected ids) (fetched e accts)
   \<and> subseq (filter eligible (fst (fetch_accounts e ids accts [] []))) (fetched e accts)
   \<and> (category t = None \<longrightarrow> t \<notin> set (filter eligible (fst (fetch_accounts e ids accts [] []))))
   \<and> (t \<in> set (fetched e accts) \<and> cleared t \<and> hp_category ids t \<and> tx_notes t = None
        \<longrightarrow> t \<in> set (filter eligible (fst (fetch_accounts e ids accts [] []))))
   \<and> (tx_notes t = Some (pre @ ''#HP-Submitted'' @ post) \<or>
       tx_notes t = Some (pre @ ''#HP-Paid'' @ post)
        \<longrightarrow> t \<notin> set (filter eligible (fst (fetch_accounts e ids accts [] []))))
   \<and> ([] \<notin> set ids \<longrightarrow>
        selected ids t =
          (cleared t \<and> (\<exists>c. category t = Some c \<and> c \<in> set ids) \<and> \<not> carries_marker t))"
proof -
  let ?out = "filter eligible (fst (fetch_accounts e ids accts [] []))"
  have exact: "?out = filter (selected ids) (fetched e accts)"
  proof -
    have "filter eligible (filter (hp_category ids) xs) = filter (selected ids) xs" for xs
      by (induction xs) (auto simp: selected_iff)
    then show ?thesis by (simp only: candidates_eq)
  qed
  have ordered: "subseq ?out (fetched e accts)"
    unfolding exact by simp
  have no_category: "category t = None \<longrightarrow> t \<notin> set ?out"
    unfolding exact by (simp add: selected_def)
  have no_notes:
    "t \<in> set (fetched e accts) \<and> cleared t \<and> hp_category ids t \<and> tx_notes t = None
       \<longrightarrow> t \<in> set ?out"
    unfolding exact by (auto simp: selected_iff eligible_iff carries_marker_def)
  have marked:
    "tx_notes t = Some (pre @ ''#HP-Submitted'' @ post) \<or>
     tx_notes t = Some (pre @ ''#HP-Paid'' @ post) \<longrightarrow> t \<notin> set ?out"
    unfolding exact by (auto simp: selected_def carries_marker_def)
  have literal: "[] \<notin> set ids \<longrightarrow>
        selected ids t =
          (cleared t \<and> (\<exists>c. category t = Some c \<and> c \<in> set ids) \<and> \<not> carries_marker t)"
    by (auto simp: selected_def)
  from exact ordered no_category no_notes marked literal show ?thesis by blast
qed

theorem eligibility_filter_exact_witness:
  "category t_uncategorised = None
   \<and> t_uncategorised \<notin> set (filter eligible (fst (fetch_accounts
        (demo_env [t1, t_paid, t_uncategorised, t_uncleared, t2]) [''c1''] demo_accounts [] [])))
   \<and> t1 \<in> set (fetched (demo_env [t1, t_paid, t_uncategorised, t_uncleared, t2]) demo_accounts)
   \<and> cleared t1 \<and> hp_category [''c1''] t1 \<and> tx_notes t1 = None
   \<and> t1 \<in> set (filter eligible (fst (fetch_accounts
        (demo_env [t1, t_paid, t_uncategorised, t_uncleared, t2]) [''c1''] demo_accounts [] [])))
   \<and> tx_notes t_paid = Some (''refund '' @ ''#HP-Paid'' @ '' in March'')
   \<and> t_paid \<notin> set (filter eligible (fst (fetch_accounts
        (demo_env [t1, t_paid, t_uncategorised, t_uncleared, t2]) [''c1''] demo_accounts [] [])))
   \<and> filter (selected [''c1'']) (fetched (demo_env [t1, t_paid, t_uncategorised, t_uncleared, t2])
        demo_accounts) = [t1, t2]
   \<and> [] \<notin> set [''c1'']
   \<and> selected [''c1''] t1"
proof -
  let ?e = "demo_env [t1, t_paid, t_uncategorised, t_uncleared, t2]"
  let ?out = "filter eligible (fst (fetch_accounts ?e [''c1''] demo_accounts [] []))"
  have a: "category t_uncategorised = None"
    by (simp add: t_uncategorised_def demo_tx_def)
  have b: "t1 \<in> set (fetched ?e demo_accounts) \<and> cleared t1 \<and> hp_category [''c1''] t1 \<and>
           tx_notes t1 = None"
    by (simp add: fetched_def account_transactions_def demo_env_def demo_accounts_def t1_def
        demo_tx_def hp_category_def truthy_def or_empty_def)
  have c: "tx_notes t_paid = Some (''refund '' @ ''#HP-Paid'' @ '' in March'')"
    by (simp add: t_paid_def demo_tx_def)
  have d: "?out = [t1, t2]"
    by (simp add: demo_env_def demo_accounts_def t1_def t2_def t_paid_def t_uncategorised_def
        t_uncleared_def demo_tx_def hp_category_def truthy_def or_empty_def eligible_def)
  have s: "[] \<notin> set [''c1'']"
    by simp
  have m: "\<not> carries_marker t1" and k: "\<exists>c. category t1 = Some c \<and> c \<in> set [''c1'']"
    by (simp_all add: carries_marker_def t1_def demo_tx_def)
  have w1: "t_uncategorised \<notin> set ?out"
    using eligibility_filter_exact [of ?e "[''c1'']" demo_accounts t_uncategorised "[]" "[]"] a
    by blast
  have w2: "t1 \<in> set ?out"
    using eligibility_filter_exact [of ?e "[''c1'']" demo_accounts t1 "[]" "[]"] b by blast
  have w3: "t_paid \<notin> set ?out"
    using eligibility_filter_exact [of ?e "[''c1'']" demo_accounts t_paid "''refund ''" "'' in March''"]
      c by blast
  have w4: "filter (selected [''c1'']) (fetched ?e demo_accounts) = ?out"
    using eligibility_filter_exact [of ?e "[''c1'']" demo_accounts t1 "[]" "[]"] by simp
  have w5: "selected [''c1''] t1"
    using eligibility_filter_exact [of ?e "[''c1'']" demo_accounts t1 "[]" "[]"] b m k by simp
  from a b c s w1 w2 w3 w4 [unfolded d] w5 show ?thesis
    by blast
qed

section \<open>State Store: loading\<close>

text \<open>
  C9. \<^verbatim>\<open>loadState\<close> has no failing outcome: a missing file gives the default state,
  an unreadable file, a file that is not JSON and the document \<^verbatim>\<open>null\<close> give the
  default state with one warning in the log, and whatever the file holds the result is
  the default state or the snapshot found in the file. The default state has no
  transactions, no \<^verbatim>\<open>last_processing\<close> and statistics of zero.
\<close>

theorem loadState_never_fails:
  "loadState No_file = (default_state, [])
   \<and> loadState (Unreadable msg) =
       (default_state, [Log Warning (''Failed to load state file: '' @ msg)])
   \<and> loadState (Invalid_json msg) =
       (default_state, [Log Warning (''Failed to load state file: '' @ msg)])
   \<and> fst (loadState Json_null) = default_state
   \<and> (fst (loadState f) = default_state \<or> f = Snapshot (fst (loadState f)))
   \<and> transactions default_state = [] \<and> last_processing default_state = None
   \<and> statistics default_state =
       \<lparr>total_processed = 0, total_submitted = 0, total_paid = 0, total_failed = 0\<rparr>"
proof -
  have any: "fst (loadState f) = default_state \<or> f = Snapshot (fst (loadState f))"
    by (cases f) (simp_all add: loadState_def loadState_try_def)
  then show ?thesis
    by (simp add: loadState_def loadState_try_def default_state_def)
qed

section \<open>Effects of the parts of a run\<close>

lemma attempted_append: "attempted (fx @ fx') = attempted fx @ attempted fx'"
  by (induction fx rule: attempted.induct) simp_all

lemma xano_calls_append: "xano_calls (fx @ fx') = xano_calls fx @ xano_calls fx'"
  by (induction fx rule: xano_calls.induct) simp_all

lemma account_warnings_quiet:
  "attempted (concat (map (account_warning e) accts)) = [] \<and>
   xano_calls (concat (map (account_warning e) accts)) = []"
  by (induction accts)
    (simp_all add: attempted_append xano_calls_append account_warning_def split: sum.splits)

lemma fetchHPTransactions_quiet:
  assumes "fetchHPTransactions cfg e = (res, fx)"
  shows "attempted fx = [] \<and> xano_calls fx = []"
  using assms account_warnings_quiet [of e]
  by (auto simp: fetchHPTransactions_def fetch_failed_def fetch_accounts_eq Let_def
      split: sum.splits option.splits if_splits)

lemma fetchHPTransactions_total:
  assumes "getCategoryGroups e = Inr gs" and "getCategories e = Inr cs"
    and "getAccounts e = Inr accts"
  shows "\<exists>txs. fst (fetchHPTransactions cfg e) = Inr txs"
  using assms
  by (simp add: fetchHPTransactions_def Let_def split: option.splits prod.splits)

lemma saveState_quiet:
  "attempted (snd (snd (saveState e s f))) = [] \<and> xano_calls (snd (snd (saveState e s f))) = []"
  by (simp add: saveState_def Let_def split: write_outcome.splits)

lemma processTransaction_attempted:
  "attempted (snd (snd (processTransaction cfg e s t))) = [txn_id t]"
  by (simp add: processTransaction_def submitToXano_def addNoteTag_def Let_def attempted_append
      split: sum.splits option.splits)

lemma tally_processed: "processed (tally res r) = processed r + 1"
  by (simp add: tally_def split: sum.splits)

lemma process_loop_attempted:
  "attempted (snd (snd (process_loop cfg e ts s r fx))) = attempted fx @ map txn_id ts \<and>
   processed (fst (snd (process_loop cfg e ts s r fx))) = processed r + length ts"
proof (induction ts arbitrary: s r fx)
  case Nil
  show ?case by simp
next
  case (Cons t ts)
  obtain res s' fx' where step: "processTransaction cfg e s t = (res, s', fx')"
    by (cases "processTransaction cfg e s t") auto
  from processTransaction_attempted [of cfg e s t] step
  have "attempted fx' = [txn_id t]" by simp
  with step Cons.IH [of s' "tally res r" "fx @ fx'"] show ?case
    by (simp add: attempted_append tally_processed)
qed

lemma run_returns:
  assumes "budget_init e = None" and "fst (fetchHPTransactions cfg e) = Inr txs"
  shows "\<exists>r. result (processAllTransactions cfg e s f) = Inr r"
  using assms
  by (cases "fetchHPTransactions cfg e")
    (simp add: processAllTransactions_def Let_def split: prod.splits)

section \<open>Fetching\<close>

text \<open>
  C6. When the fetch of one account fails, the candidates of the run are those it would
  have without that account, namely the HP transactions of the accounts before and
  after it; the failure is in the log as a warning naming the account; and a run whose
  session and whose listings of groups, categories and accounts succeed returns a
  result, whatever the fetches of the single accounts do.
\<close>

theorem account_fetch_failure_isolated:
  assumes "getTransactions e (acc_id a) = Inl msg"
  shows "fst (fetch_accounts e ids (before @ a # after) [] []) =
           fst (fetch_accounts e ids (before @ after) [] [])
   \<and> fst (fetch_accounts e ids (before @ a # after) [] []) =
           filter (hp_category ids) (fetched e before) @ filter (hp_category ids) (fetched e after)
   \<and> Log Warning (''Failed to fetch transactions for account '' @ acc_name a @ '': '' @ msg)
        \<in> set (snd (fetch_accounts e ids (before @ a # after) [] []))
   \<and> (budget_init e = None \<and> getCategoryGroups e = Inr gs \<and> getCategories e = Inr cs \<and>
       getAccounts e = Inr accts
        \<longrightarrow> (\<exists>r. result (processAllTransactions cfg e s f) = Inr r))"
proof -
  from assms have gone: "account_transactions e a = []"
    by (simp add: account_transactions_def)
  from assms have warned:
    "account_warning e a =
       [Log Warning (''Failed to fetch transactions for account '' @ acc_name a @ '': '' @ msg)]"
    by (simp add: account_warning_def)
  have same: "fst (fetch_accounts e ids (before @ a # after) [] []) =
              fst (fetch_accounts e ids (before @ after) [] [])"
    by (simp add: fetch_accounts_eq gone)
  have kept: "fst (fetch_accounts e ids (before @ a # after) [] []) =
      filter (hp_category ids) (fetched e before) @ filter (hp_category ids) (fetched e after)"
    by (simp add: candidates_eq fetched_def gone)
  have logged:
    "Log Warning (''Failed to fetch transactions for account '' @ acc_name a @ '': '' @ msg)
       \<in> set (snd (fetch_accounts e ids (before @ a # after) [] []))"
    by (simp add: fetch_accounts_eq warned)
  have returns: "budget_init e = None \<and> getCategoryGroups e = Inr gs \<and> getCategories e = Inr cs \<and>
       getAccounts e = Inr accts
        \<longrightarrow> (\<exists>r. result (processAllTransactions cfg e s f) = Inr r)"
    using fetchHPTransactions_total [of e gs cs accts cfg] run_returns [of e cfg _ s f]
    by blast
  from same kept logged returns show ?thesis by blast
qed

lemmas run_defs =
  main_def loadState_def loadState_try_def processAllTransactions_def run_failed_def
  fetchHPTransactions_def fetch_failed_def is_hp_group_def hp_category_def eligible_def
  truthy_def or_empty_def transactionsToProcess_def slice0_def processTransaction_def
  submitToXano_def addNoteTag_def new_tracked_def no_result_def tally_def add_statistics_def
  saveState_def default_state_def Let_def

lemmas demo_defs =
  demo_cfg_def demo_env_def demo_accounts_def demo_tx_def t1_def t2_def t3_def t_paid_def
  t_uncategorised_def t_uncleared_def t_tagged_def

theorem account_fetch_failure_isolated_witness:
  "getTransactions (demo_env [t1, t2]) (acc_id (demo_accounts ! 1)) = Inl ''connection reset''
   \<and> fst (fetch_accounts (demo_env [t1, t2]) [''c1''] ([demo_accounts ! 0] @ demo_accounts ! 1 # []) [] [])
       = [t1, t2]
   \<and> Log Warning ''Failed to fetch transactions for account Savings: connection reset''
        \<in> set (snd (fetch_accounts (demo_env [t1, t2]) [''c1'']
                      ([demo_accounts ! 0] @ demo_accounts ! 1 # []) [] []))
   \<and> budget_init (demo_env [t1, t2]) = None
   \<and> result (processAllTransactions demo_cfg (demo_env [t1, t2]) default_state No_file) =
        Inr \<lparr>processed = 2, submitted = 2, failed = 0\<rparr>"
proof -
  have h: "getTransactions (demo_env [t1, t2]) (acc_id (demo_accounts ! 1)) = Inl ''connection reset''"
    by (simp add: demo_defs)
  have r: "result (processAllTransactions demo_cfg (demo_env [t1, t2]) default_state No_file) =
        Inr \<lparr>processed = 2, submitted = 2, failed = 0\<rparr>"
    by (simp add: run_defs demo_defs)
  from h r account_fetch_failure_isolated [OF h, of "[''c1'']" "[demo_accounts ! 0]" "[]"]
  show ?thesis
    by (simp add: fetched_def account_transactions_def hp_category_def truthy_def or_empty_def
        demo_defs)
qed

section \<open>Batching\<close>

lemma slice0_take: "0 \<le> k \<Longrightarrow> slice0 xs k = take (nat k) xs"
  by (simp add: slice0_def Let_def min_def)

text \<open>A setting that does not parse, or parses to a number that is not negative, is positive.\<close>

lemma batch_setting_positive:
  "(case parsed of None \<Rightarrow> True | Some n \<Rightarrow> 0 \<le> n) \<Longrightarrow> 0 < batch_setting parsed"
  by (cases parsed) (simp_all add: batch_setting_def)

text \<open>
  C3, as the code has it. With a configured batch size that is not negative, the
  transactions a run hands to \<^verbatim>\<open>processTransaction\<close> are the first
  \<open>min (eligible count) (batch size)\<close> of the eligible list, in the order of that list;
  these are the identifiers the run attempts, in that order, and their number is the
  \<open>processed\<close> count it returns.
\<close>

theorem batch_bound:
  assumes "0 \<le> hp_max_transactions_per_batch cfg"
  shows "transactionsToProcess cfg txs =
           take (min (length txs) (nat (hp_max_transactions_per_batch cfg))) txs
   \<and> length (transactionsToProcess cfg txs) =
           min (length txs) (nat (hp_max_transactions_per_batch cfg))
   \<and> (budget_init e = None \<and> fetchHPTransactions cfg e = (Inr txs, fx) \<longrightarrow>
        attempted (effects (processAllTransactions cfg e s f)) =
          map txn_id (take (min (length txs) (nat (hp_max_transactions_per_batch cfg))) txs)
        \<and> (\<exists>r. result (processAllTransactions cfg e s f) = Inr r \<and>
                 processed r = min (length txs) (nat (hp_max_transactions_per_batch cfg))))"
proof -
  let ?n = "min (length txs) (nat (hp_max_transactions_per_batch cfg))"
  from assms have batch: "transactionsToProcess cfg txs = take ?n txs"
    by (simp add: transactionsToProcess_def Let_def slice0_take min_def)
  then have len: "length (transactionsToProcess cfg txs) = ?n"
    by simp
  have run: "attempted (effects (processAllTransactions cfg e s f)) = map txn_id (take ?n txs)
        \<and> (\<exists>r. result (processAllTransactions cfg e s f) = Inr r \<and> processed r = ?n)"
    if init: "budget_init e = None" and fetch: "fetchHPTransactions cfg e = (Inr txs, fx)"
  proof (cases "txs = []")
    case True
    with init fetch fetchHPTransactions_quiet [OF fetch] show ?thesis
      by (simp add: processAllTransactions_def attempted_append no_result_def)
  next
    case False
    obtain s1 r fx1 where loop:
      "process_loop cfg e (transactionsToProcess cfg txs) s no_result [] = (s1, r, fx1)"
      by (cases "process_loop cfg e (transactionsToProcess cfg txs) s no_result []") auto
    from process_loop_attempted [of cfg e "transactionsToProcess cfg txs" s no_result "[]"] loop batch
    have fx1: "attempted fx1 = map txn_id (take ?n txs)" and r: "processed r = ?n"
      by (simp_all add: no_result_def)
    obtain s3 f' fx2 where save: "saveState e (add_statistics r s1) f = (s3, f', fx2)"
      by (cases "saveState e (add_statistics r s1) f") auto
    from saveState_quiet [of e "add_statistics r s1" f] save have fx2: "attempted fx2 = []"
      by simp
    from False init fetch loop save have
      "processAllTransactions cfg e s f =
         \<lparr>result = Inr r, state = s3, disk = f', effects = fx @ fx1 @ fx2 @ [Shutdown]\<rparr>"
      by (simp add: processAllTransactions_def)
    with fetchHPTransactions_quiet [OF fetch] fx1 fx2 r show ?thesis
      by (simp add: attempted_append)
  qed
  from batch len run show ?thesis by blast
qed

theorem batch_bound_witness:
  "0 \<le> hp_max_transactions_per_batch (demo_cfg\<lparr>hp_max_transactions_per_batch := 2\<rparr>)
   \<and> transactionsToProcess (demo_cfg\<lparr>hp_max_transactions_per_batch := 2\<rparr>) [t1, t2, t3] = [t1, t2]
   \<and> budget_init (demo_env [t1, t2, t3]) = None
   \<and> fst (fetchHPTransactions (demo_cfg\<lparr>hp_max_transactions_per_batch := 2\<rparr>) (demo_env [t1, t2, t3]))
       = Inr [t1, t2, t3]
   \<and> attempted (effects (processAllTransactions (demo_cfg\<lparr>hp_max_transactions_per_batch := 2\<rparr>)
        (demo_env [t1, t2, t3]) default_state No_file)) = [''t1'', ''t2'']"
proof -
  let ?cfg = "demo_cfg\<lparr>hp_max_transactions_per_batch := 2\<rparr>"
  have h: "0 \<le> hp_max_transactions_per_batch ?cfg"
    by (simp add: demo_defs)
  have i: "budget_init (demo_env [t1, t2, t3]) = None"
    by (simp add: demo_defs)
  have g: "fetchHPTransactions ?cfg (demo_env [t1, t2, t3]) =
      (Inr [t1, t2, t3],
       [Log Warning ''Failed to fetch transactions for account Savings: connection reset''])"
    by (simp add: run_defs demo_defs)
  from h i g batch_bound [OF h, of "[t1, t2, t3]" "demo_env [t1, t2, t3]" _ default_state No_file]
  show ?thesis
    by (simp add: demo_defs)
qed

text \<open>
  The claim as stated fails for a negative setting, which
  \<^verbatim>\<open>parseInt(...) || 50\<close> lets through: with the setting \<open>-1\<close> and three eligible
  transactions the minimum is \<open>-1\<close>, \<^verbatim>\<open>slice(0, -1)\<close> drops the last element, and
  the run attempts two transactions.
\<close>

theorem negative_batch_setting_attempts_all_but_last:
  "batch_setting (Some (- 1)) = - 1
   \<and> fst (fetchHPTransactions (demo_cfg\<lparr>hp_max_transactions_per_batch := batch_setting (Some (- 1))\<rparr>)
          (demo_env [t1, t2, t3])) = Inr [t1, t2, t3]
   \<and> min (int (length [t1, t2, t3])) (batch_setting (Some (- 1))) = - 1
   \<and> attempted (effects (main (demo_cfg\<lparr>hp_max_transactions_per_batch := batch_setting (Some (- 1))\<rparr>)
          (demo_env [t1, t2, t3]) No_file)) = [''t1'', ''t2'']
   \<and> result (main (demo_cfg\<lparr>hp_max_transactions_per_batch := batch_setting (Some (- 1))\<rparr>)
          (demo_env [t1, t2, t3]) No_file) = Inr \<lparr>processed = 2, submitted = 2, failed = 0\<rparr>"
  by (simp add: batch_setting_def run_defs demo_defs)

section \<open>Processing one transaction\<close>

lemma status_of_update:
  "status_of (s\<lparr>transactions := AList.update k tr (transactions s)\<rparr>) i =
     (if i = k then Some (status tr) else status_of s i)"
  by (simp add: status_of_def update_conv')

text \<open>
  What \<^const>\<open>processTransaction\<close> does to the state: it writes one entry, under the
  identifier of the transaction, and nothing else.
\<close>

lemma processTransaction_state:
  "\<exists>tr. fst (snd (processTransaction cfg e s t)) =
          s\<lparr>transactions := AList.update (txn_id t) tr (transactions s)\<rparr> \<and>
        (status tr = Submitted \<or> status tr = Failed) \<and>
        (hp_dry_run_mode cfg \<longrightarrow> status tr = Submitted) \<and>
        ((\<exists>m. fst (processTransaction cfg e s t) = Inr m) \<longleftrightarrow> status tr = Submitted) \<and>
        attempts tr =
          (case map_of (transactions s) (txn_id t) of None \<Rightarrow> 1 | Some old \<Rightarrow> attempts old + 1)"
proof -
  let ?s' = "fst (snd (processTransaction cfg e s t))"
  let ?tr = "the (map_of (transactions ?s') (txn_id t))"
  have "?s' = s\<lparr>transactions := AList.update (txn_id t) ?tr (transactions s)\<rparr> \<and>
        (status ?tr = Submitted \<or> status ?tr = Failed) \<and>
        (hp_dry_run_mode cfg \<longrightarrow> status ?tr = Submitted) \<and>
        ((\<exists>m. fst (processTransaction cfg e s t) = Inr m) \<longleftrightarrow> status ?tr = Submitted) \<and>
        attempts ?tr =
          (case map_of (transactions s) (txn_id t) of None \<Rightarrow> 1 | Some old \<Rightarrow> attempts old + 1)"
    by (cases "makeXanoRequest e t"; cases "map_of (transactions s) (txn_id t)")
      (simp_all add: processTransaction_def submitToXano_def new_tracked_def Let_def update_conv')
  then show ?thesis by blast
qed

lemma processTransaction_dry:
  assumes "hp_dry_run_mode cfg"
  shows "fst (processTransaction cfg e s t) = Inr ''Dry run successful'' \<and>
         snd (snd (processTransaction cfg e s t)) = [Processing (txn_id t)]"
  using assms by (simp add: processTransaction_def Let_def)

lemma processTransaction_keys:
  "map fst (transactions (fst (snd (processTransaction cfg e s t)))) =
     (if txn_id t \<in> set (map fst (transactions s)) then map fst (transactions s)
      else map fst (transactions s) @ [txn_id t])"
proof -
  from processTransaction_state [of cfg e s t] obtain tr where
    "fst (snd (processTransaction cfg e s t)) =
       s\<lparr>transactions := AList.update (txn_id t) tr (transactions s)\<rparr>"
    by blast
  then show ?thesis by (simp add: update_keys)
qed

lemma process_loop_keys:
  assumes "distinct (map txn_id ts)"
    and "\<forall>t\<in>set ts. txn_id t \<notin> set (map fst (transactions s))"
  shows "map fst (transactions (fst (process_loop cfg e ts s r fx))) =
           map fst (transactions s) @ map txn_id ts"
  using assms
proof (induction ts arbitrary: s r fx)
  case Nil
  show ?case by simp
next
  case (Cons t ts)
  obtain res s' fx' where step: "processTransaction cfg e s t = (res, s', fx')"
    by (cases "processTransaction cfg e s t") auto
  from Cons.prems processTransaction_keys [of cfg e s t] step
  have keys: "map fst (transactions s') = map fst (transactions s) @ [txn_id t]"
    by simp
  have "txn_id u \<notin> set (map fst (transactions s'))" if "u \<in> set ts" for u
  proof -
    from Cons.prems(1) have "txn_id t \<notin> txn_id ` set ts" by simp
    with that have "txn_id u \<noteq> txn_id t" by (metis imageI)
    moreover from that Cons.prems(2) have "txn_id u \<notin> set (map fst (transactions s))"
      by simp
    ultimately show ?thesis using keys by simp
  qed
  then have "\<forall>u\<in>set ts. txn_id u \<notin> set (map fst (transactions s'))"
    by blast
  with Cons.prems Cons.IH [of s' "tally res r" "fx @ fx'"] step keys show ?case
    by simp
qed

section \<open>Dry run\<close>

lemma process_loop_dry:
  assumes "hp_dry_run_mode cfg"
  shows "xano_calls (snd (snd (process_loop cfg e ts s r fx))) = xano_calls fx \<and>
         submitted (fst (snd (process_loop cfg e ts s r fx))) = submitted r + length ts \<and>
         failed (fst (snd (process_loop cfg e ts s r fx))) = failed r \<and>
         (\<forall>i. i \<in> txn_id ` set ts \<or> status_of s i = Some Submitted \<longrightarrow>
              status_of (fst (process_loop cfg e ts s r fx)) i = Some Submitted)"
proof (induction ts arbitrary: s r fx)
  case Nil
  show ?case by simp
next
  case (Cons t ts)
  obtain res s' fx' where step: "processTransaction cfg e s t = (res, s', fx')"
    by (cases "processTransaction cfg e s t") auto
  from processTransaction_dry [OF assms, of e s t] step
  have res: "res = Inr ''Dry run successful''" and fx': "fx' = [Processing (txn_id t)]"
    by simp_all
  from processTransaction_state [of cfg e s t] step assms obtain tr where
    s': "s' = s\<lparr>transactions := AList.update (txn_id t) tr (transactions s)\<rparr>"
    and tr: "status tr = Submitted"
    by auto
  have kept: "status_of s' i = Some Submitted"
    if "i = txn_id t \<or> status_of s i = Some Submitted" for i
    using that by (auto simp: s' tr status_of_update)
  from Cons.IH [of s' "tally res r" "fx @ fx'"] step res fx' kept show ?case
    by (auto simp: xano_calls_append tally_def)
qed

text \<open>
  C7. With the dry-run flag set, \<^verbatim>\<open>processTransaction\<close> returns the success result
  \<^verbatim>\<open>Dry run successful\<close>, leaves only its opening log line and records the
  transaction as \<open>Submitted\<close>; a whole run makes no call of the Export Client. When the
  session opens and the fetch returns the eligible list \<open>txs\<close>, the run returns
  \<open>processed = submitted =\<close> the size of the batch and \<open>failed = 0\<close>, and every
  transaction of the batch is \<open>Submitted\<close> in the state it leaves. In particular, three
  eligible transactions and a batch size of 50 give \<open>(3, 3, 0)\<close>, and when the three
  have different identifiers that the state did not track, the state gains exactly
  these three entries.
\<close>

theorem dry_run_submits_without_export:
  assumes "hp_dry_run_mode cfg"
  shows "processTransaction cfg e s t =
           (Inr ''Dry run successful'', fst (snd (processTransaction cfg e s t)),
            [Processing (txn_id t)])
   \<and> status_of (fst (snd (processTransaction cfg e s t))) (txn_id t) = Some Submitted
   \<and> xano_calls (effects (main cfg e f)) = []
   \<and> (budget_init e = None \<and> fetchHPTransactions cfg e = (Inr txs, fx) \<longrightarrow>
        result (processAllTransactions cfg e s f) =
          Inr \<lparr>processed = length (transactionsToProcess cfg txs),
               submitted = length (transactionsToProcess cfg txs), failed = 0\<rparr>
        \<and> (\<forall>u\<in>set (transactionsToProcess cfg txs).
              status_of (state (processAllTransactions cfg e s f)) (txn_id u) = Some Submitted))
   \<and> (budget_init e = None \<and> fetchHPTransactions cfg e = (Inr txs, fx) \<and> length txs = 3 \<and>
       hp_max_transactions_per_batch cfg = 50 \<longrightarrow>
        result (processAllTransactions cfg e s f) =
          Inr \<lparr>processed = 3, submitted = 3, failed = 0\<rparr>
        \<and> (\<forall>u\<in>set txs.
              status_of (state (processAllTransactions cfg e s f)) (txn_id u) = Some Submitted)
        \<and> (distinct (map txn_id txs) \<and>
            (\<forall>u\<in>set txs. txn_id u \<notin> set (map fst (transactions s))) \<longrightarrow>
              map fst (transactions (state (processAllTransactions cfg e s f))) =
                map fst (transactions s) @ map txn_id txs))"
proof -
  have one: "processTransaction cfg e s t =
           (Inr ''Dry run successful'', fst (snd (processTransaction cfg e s t)),
            [Processing (txn_id t)])"
    using processTransaction_dry [OF assms, of e s t]
    by (cases "processTransaction cfg e s t") simp
  have marked: "status_of (fst (snd (processTransaction cfg e s t))) (txn_id t) = Some Submitted"
    using processTransaction_state [of cfg e s t] assms by (auto simp: status_of_update)
  have run_shape:
    "result (processAllTransactions cfg e s0 f0) =
       Inr (fst (snd (process_loop cfg e (transactionsToProcess cfg txs) s0 no_result []))) \<and>
     transactions (state (processAllTransactions cfg e s0 f0)) =
       transactions (fst (process_loop cfg e (transactionsToProcess cfg txs) s0 no_result [])) \<and>
     xano_calls (effects (processAllTransactions cfg e s0 f0)) =
       xano_calls (snd (snd (process_loop cfg e (transactionsToProcess cfg txs) s0 no_result [])))"
    if "budget_init e = None" and fetch: "fetchHPTransactions cfg e = (Inr txs, fx)"
    for s0 f0 txs fx
  proof (cases "txs = []")
    case True
    with that fetchHPTransactions_quiet [OF fetch] show ?thesis
      by (simp add: processAllTransactions_def transactionsToProcess_def slice0_def
          xano_calls_append)
  next
    case False
    with that fetchHPTransactions_quiet [OF fetch]
      saveState_quiet [of e _ f0] show ?thesis
      by (simp add: processAllTransactions_def xano_calls_append saveState_def add_statistics_def
          Let_def split: prod.splits write_outcome.splits)
  qed
  have quiet: "xano_calls (effects (processAllTransactions cfg e s0 f0)) = []" for s0 f0
  proof (cases "budget_init e")
    case (Some msg)
    then show ?thesis
      by (simp add: processAllTransactions_def run_failed_def)
  next
    case None
    obtain res fx where fetch: "fetchHPTransactions cfg e = (res, fx)"
      by (cases "fetchHPTransactions cfg e") auto
    show ?thesis
    proof (cases res)
      case (Inl msg)
      with None fetch fetchHPTransactions_quiet [OF fetch] show ?thesis
        by (simp add: processAllTransactions_def run_failed_def xano_calls_append)
    next
      case (Inr txs)
      with None fetch run_shape [of txs fx s0 f0] process_loop_dry [OF assms, of e _ s0 no_result "[]"]
      show ?thesis by simp
    qed
  qed
  have no_export: "xano_calls (effects (main cfg e f)) = []"
  proof -
    obtain s0 fx0 where load: "loadState f = (s0, fx0)"
      by (cases "loadState f") auto
    then have "xano_calls fx0 = []"
      by (auto simp: loadState_def split: sum.splits option.splits)
    with load quiet [of s0 f] show ?thesis
      by (simp add: main_def Let_def xano_calls_append)
  qed
  have general:
    "result (processAllTransactions cfg e s f) =
          Inr \<lparr>processed = length (transactionsToProcess cfg txs),
               submitted = length (transactionsToProcess cfg txs), failed = 0\<rparr>
        \<and> (\<forall>u\<in>set (transactionsToProcess cfg txs).
              status_of (state (processAllTransactions cfg e s f)) (txn_id u) = Some Submitted)"
    if init: "budget_init e = None" and fetch: "fetchHPTransactions cfg e = (Inr txs, fx)"
  proof -
    let ?b = "transactionsToProcess cfg txs"
    let ?r = "fst (snd (process_loop cfg e ?b s no_result []))"
    from process_loop_dry [OF assms, of e ?b s no_result "[]"]
      process_loop_attempted [of cfg e ?b s no_result "[]"]
    have "processed ?r = length ?b" "submitted ?r = length ?b" "failed ?r = 0"
      and all: "\<forall>u\<in>set ?b. status_of (fst (process_loop cfg e ?b s no_result [])) (txn_id u) =
                  Some Submitted"
      by (simp_all add: no_result_def)
    then have "?r = \<lparr>processed = length ?b, submitted = length ?b, failed = 0\<rparr>"
      by (cases ?r) simp
    with run_shape [OF init fetch, of s f] all show ?thesis
      by (simp add: status_of_def)
  qed
  have scenario:
    "result (processAllTransactions cfg e s f) = Inr \<lparr>processed = 3, submitted = 3, failed = 0\<rparr>
        \<and> (\<forall>u\<in>set txs.
              status_of (state (processAllTransactions cfg e s f)) (txn_id u) = Some Submitted)
        \<and> (distinct (map txn_id txs) \<and>
            (\<forall>u\<in>set txs. txn_id u \<notin> set (map fst (transactions s))) \<longrightarrow>
              map fst (transactions (state (processAllTransactions cfg e s f))) =
                map fst (transactions s) @ map txn_id txs)"
    if init: "budget_init e = None" and fetch: "fetchHPTransactions cfg e = (Inr txs, fx)"
      and three: "length txs = 3" and fifty: "hp_max_transactions_per_batch cfg = 50"
  proof -
    from three fifty have batch: "transactionsToProcess cfg txs = txs"
      by (simp add: transactionsToProcess_def slice0_def)
    from general [OF init fetch] batch three
    have a: "result (processAllTransactions cfg e s f) =
               Inr \<lparr>processed = 3, submitted = 3, failed = 0\<rparr>"
      and b: "\<forall>u\<in>set txs.
              status_of (state (processAllTransactions cfg e s f)) (txn_id u) = Some Submitted"
      by simp_all
    have c: "map fst (transactions (state (processAllTransactions cfg e s f))) =
                map fst (transactions s) @ map txn_id txs"
      if "distinct (map txn_id txs)"
        and "\<forall>u\<in>set txs. txn_id u \<notin> set (map fst (transactions s))"
      using run_shape [OF init fetch, of s f] process_loop_keys [OF that, of cfg e no_result "[]"]
        batch by simp
    from a b c show ?thesis by blast
  qed
  from one marked no_export general scenario show ?thesis by blast
qed

theorem dry_run_submits_without_export_witness:
  "hp_dry_run_mode (demo_cfg\<lparr>hp_dry_run_mode := True\<rparr>)
   \<and> budget_init (demo_env [t1, t2, t3]) = None
   \<and> fst (fetchHPTransactions (demo_cfg\<lparr>hp_dry_run_mode := True\<rparr>) (demo_env [t1, t2, t3])) =
        Inr [t1, t2, t3]
   \<and> length [t1, t2, t3] = 3
   \<and> hp_max_transactions_per_batch (demo_cfg\<lparr>hp_dry_run_mode := True\<rparr>) = 50
   \<and> distinct (map txn_id [t1, t2, t3])
   \<and> transactions default_state = []
   \<and> result (processAllTransactions (demo_cfg\<lparr>hp_dry_run_mode := True\<rparr>) (demo_env [t1, t2, t3])
        default_state No_file) = Inr \<lparr>processed = 3, submitted = 3, failed = 0\<rparr>
   \<and> map (\<lambda>(i, tr). (i, status tr))
        (transactions (state (processAllTransactions (demo_cfg\<lparr>hp_dry_run_mode := True\<rparr>)
           (demo_env [t1, t2, t3]) default_state No_file))) =
        [(''t1'', Submitted), (''t2'', Submitted), (''t3'', Submitted)]
   \<and> xano_calls (effects (main (demo_cfg\<lparr>hp_dry_run_mode := True\<rparr>) (demo_env [t1, t2, t3])
        No_file)) = []"
proof -
  let ?cfg = "demo_cfg\<lparr>hp_dry_run_mode := True\<rparr>"
  let ?e = "demo_env [t1, t2, t3]"
  have h: "hp_dry_run_mode ?cfg"
    by (simp add: demo_defs)
  have g: "fetchHPTransactions ?cfg ?e =
      (Inr [t1, t2, t3],
       [Log Warning ''Failed to fetch transactions for account Savings: connection reset''])"
    by (simp add: run_defs demo_defs)
  have st: "map (\<lambda>(i, tr). (i, status tr))
        (transactions (state (processAllTransactions ?cfg ?e default_state No_file))) =
        [(''t1'', Submitted), (''t2'', Submitted), (''t3'', Submitted)]"
    by (simp add: run_defs demo_defs)
  from h g st dry_run_submits_without_export [OF h, of ?e default_state t1 No_file "[t1, t2, t3]"
      "[Log Warning ''Failed to fetch transactions for account Savings: connection reset'']"]
  show ?thesis
    by (simp add: demo_defs default_state_def transactionsToProcess_def slice0_def)
qed

section \<open>The batch loop and the run\<close>

lemma processTransaction_frame:
  "last_processing (fst (snd (processTransaction cfg e s t))) = last_processing s \<and>
   statistics (fst (snd (processTransaction cfg e s t))) = statistics s"
  using processTransaction_state [of cfg e s t] by auto

lemma processTransaction_result:
  assumes "\<not> hp_dry_run_mode cfg"
  shows "(\<exists>m. fst (processTransaction cfg e s t) = Inr m) \<longleftrightarrow> accepted e t"
  using assms
  by (cases "makeXanoRequest e t")
    (simp_all add: processTransaction_def submitToXano_def accepted_def Let_def)

lemma process_loop_counts:
  assumes "\<not> hp_dry_run_mode cfg"
  shows "submitted (fst (snd (process_loop cfg e ts s r fx))) =
           submitted r + length (filter (accepted e) ts) \<and>
         failed (fst (snd (process_loop cfg e ts s r fx))) =
           failed r + length (filter (\<lambda>u. \<not> accepted e u) ts)"
proof (induction ts arbitrary: s r fx)
  case Nil
  show ?case by simp
next
  case (Cons t ts)
  obtain res s' fx' where step: "processTransaction cfg e s t = (res, s', fx')"
    by (cases "processTransaction cfg e s t") auto
  from processTransaction_result [OF assms, of e s t] step
  have "(\<exists>m. res = Inr m) \<longleftrightarrow> accepted e t" by simp
  then have "submitted (tally res r) = submitted r + (if accepted e t then 1 else 0) \<and>
             failed (tally res r) = failed r + (if accepted e t then 0 else 1)"
    by (cases res) (auto simp: tally_def)
  with Cons.IH [of s' "tally res r" "fx @ fx'"] step show ?case
    by simp
qed

lemma process_loop_frame:
  "last_processing (fst (process_loop cfg e ts s r fx)) = last_processing s \<and>
   statistics (fst (process_loop cfg e ts s r fx)) = statistics s"
proof (induction ts arbitrary: s r fx)
  case Nil
  show ?case by simp
next
  case (Cons t ts)
  obtain res s' fx' where step: "processTransaction cfg e s t = (res, s', fx')"
    by (cases "processTransaction cfg e s t") auto
  with processTransaction_frame [of cfg e s t] Cons.IH [of s' "tally res r" "fx @ fx'"]
  show ?case by simp
qed

text \<open>
  The outcome of a run whose session opens and whose fetch returns a list that is not
  empty, in terms of the loop over the batch.
\<close>

lemma run_outcome:
  assumes "budget_init e = None" and "fetchHPTransactions cfg e = (Inr txs, fx)" and "txs \<noteq> []"
  shows "processAllTransactions cfg e s f =
     (let loop = process_loop cfg e (transactionsToProcess cfg txs) s no_result [];
          saved = saveState e (add_statistics (fst (snd loop)) (fst loop)) f
      in \<lparr>result = Inr (fst (snd loop)), state = fst saved, disk = fst (snd saved),
          effects = fx @ snd (snd loop) @ snd (snd saved) @ [Shutdown]\<rparr>)"
  using assms
  by (simp add: processAllTransactions_def Let_def split: prod.splits)

section \<open>Tag writes that fail\<close>

text \<open>
  C10. Outside dry-run mode, when the Export Client accepts a transaction and the
  ledger then refuses the notes update, \<^verbatim>\<open>processTransaction\<close> still returns success;
  the refusal is an error line in the log and nothing more; the entry is \<open>Submitted\<close>
  and holds the identifier the Export Client returned; the loop counts the transaction
  as processed and submitted and goes on with the rest of the batch; and the run
  returns its counts, \<open>submitted\<close> being the number of transactions of the batch that
  the Export Client accepted.
\<close>

theorem tag_write_failure_is_swallowed:
  assumes "\<not> hp_dry_run_mode cfg"
    and "makeXanoRequest e t = Inr x"
    and "updateTransaction e (txn_id t) (tagged_notes t) = Some msg"
  shows "processTransaction cfg e s t =
           (Inr ''Transaction submitted successfully'', fst (snd (processTransaction cfg e s t)),
            [Processing (txn_id t), XanoRequest (txn_id t),
             Log Error (''Failed to add tag to transaction '' @ txn_id t @ '': '' @ msg)])
   \<and> (\<exists>tr. map_of (transactions (fst (snd (processTransaction cfg e s t)))) (txn_id t) = Some tr \<and>
            status tr = Submitted \<and> xano_id tr = x)
   \<and> process_loop cfg e (t # rest) s r fx =
        process_loop cfg e rest (fst (snd (processTransaction cfg e s t)))
          (r\<lparr>processed := processed r + 1, submitted := submitted r + 1\<rparr>)
          (fx @ [Processing (txn_id t), XanoRequest (txn_id t),
                 Log Error (''Failed to add tag to transaction '' @ txn_id t @ '': '' @ msg)])
   \<and> (budget_init e = None \<and> fetchHPTransactions cfg e = (Inr txs, fx0) \<longrightarrow>
        result (processAllTransactions cfg e s f) =
          Inr \<lparr>processed = length (transactionsToProcess cfg txs),
               submitted = length (filter (accepted e) (transactionsToProcess cfg txs)),
               failed = length (filter (\<lambda>u. \<not> accepted e u) (transactionsToProcess cfg txs))\<rparr>)"
proof -
  let ?fx = "[Processing (txn_id t), XanoRequest (txn_id t),
              Log Error (''Failed to add tag to transaction '' @ txn_id t @ '': '' @ msg)]"
  have one: "processTransaction cfg e s t =
      (Inr ''Transaction submitted successfully'', fst (snd (processTransaction cfg e s t)), ?fx)"
    using assms
    by (simp add: processTransaction_def submitToXano_def addNoteTag_def tagged_notes_def Let_def)
  have entry: "\<exists>tr. map_of (transactions (fst (snd (processTransaction cfg e s t)))) (txn_id t) =
      Some tr \<and> status tr = Submitted \<and> xano_id tr = x"
    using assms
    by (simp add: processTransaction_def submitToXano_def Let_def update_conv')
  have goes_on: "process_loop cfg e (t # rest) s r fx =
        process_loop cfg e rest (fst (snd (processTransaction cfg e s t)))
          (r\<lparr>processed := processed r + 1, submitted := submitted r + 1\<rparr>) (fx @ ?fx)"
    by (subst process_loop.simps, subst one) (simp add: tally_def)
  have run: "result (processAllTransactions cfg e s f) =
          Inr \<lparr>processed = length (transactionsToProcess cfg txs),
               submitted = length (filter (accepted e) (transactionsToProcess cfg txs)),
               failed = length (filter (\<lambda>u. \<not> accepted e u) (transactionsToProcess cfg txs))\<rparr>"
    if init: "budget_init e = None" and fetch: "fetchHPTransactions cfg e = (Inr txs, fx0)"
  proof (cases "txs = []")
    case True
    with init fetch show ?thesis
      by (simp add: processAllTransactions_def transactionsToProcess_def slice0_def no_result_def)
  next
    case False
    let ?b = "transactionsToProcess cfg txs"
    let ?r = "fst (snd (process_loop cfg e ?b s no_result []))"
    from process_loop_counts [OF assms(1), of e ?b s no_result "[]"]
      process_loop_attempted [of cfg e ?b s no_result "[]"]
    have "?r = \<lparr>processed = length ?b, submitted = length (filter (accepted e) ?b),
                failed = length (filter (\<lambda>u. \<not> accepted e u) ?b)\<rparr>"
      by (cases ?r) (simp add: no_result_def)
    with run_outcome [OF init fetch False, of s f] show ?thesis
      by (simp add: Let_def)
  qed
  from one entry goes_on run show ?thesis by blast
qed

theorem tag_write_failure_is_swallowed_witness:
  "\<not> hp_dry_run_mode demo_cfg
   \<and> makeXanoRequest (demo_env_tag_fails [t1, t2]) t1 = Inr (Some ''x-t1'')
   \<and> updateTransaction (demo_env_tag_fails [t1, t2]) (txn_id t1) (tagged_notes t1) =
        Some ''network error''
   \<and> budget_init (demo_env_tag_fails [t1, t2]) = None
   \<and> fst (fetchHPTransactions demo_cfg (demo_env_tag_fails [t1, t2])) = Inr [t1, t2]
   \<and> result (processAllTransactions demo_cfg (demo_env_tag_fails [t1, t2]) default_state No_file) =
        Inr \<lparr>processed = 2, submitted = 2, failed = 0\<rparr>
   \<and> snd (snd (processTransaction demo_cfg (demo_env_tag_fails [t1, t2]) default_state t1)) =
        [Processing ''t1'', XanoRequest ''t1'',
         Log Error ''Failed to add tag to transaction t1: network error'']
   \<and> map (\<lambda>(i, tr). (i, status tr, xano_id tr))
        (transactions (fst (snd (processTransaction demo_cfg (demo_env_tag_fails [t1, t2])
           default_state t1)))) = [(''t1'', Submitted, Some ''x-t1'')]"
proof -
  let ?e = "demo_env_tag_fails [t1, t2]"
  have a: "\<not> hp_dry_run_mode demo_cfg"
    by (simp add: demo_defs)
  have b: "makeXanoRequest ?e t1 = Inr (Some ''x-t1'')"
    by (simp add: demo_env_tag_fails_def demo_defs)
  have c: "updateTransaction ?e (txn_id t1) (tagged_notes t1) = Some ''network error''"
    by (simp add: demo_env_tag_fails_def demo_defs)
  have g: "fetchHPTransactions demo_cfg ?e =
      (Inr [t1, t2],
       [Log Warning ''Failed to fetch transactions for account Savings: connection reset''])"
    by (simp add: run_defs demo_env_tag_fails_def demo_defs)
  have st: "map (\<lambda>(i, tr). (i, status tr, xano_id tr))
        (transactions (fst (snd (processTransaction demo_cfg ?e default_state t1)))) =
        [(''t1'', Submitted, Some ''x-t1'')]"
    by (simp add: run_defs demo_env_tag_fails_def demo_defs)
  have fxs: "snd (snd (processTransaction demo_cfg ?e default_state t1)) =
        [Processing ''t1'', XanoRequest ''t1'',
         Log Error ''Failed to add tag to transaction t1: network error'']"
    by (simp add: run_defs demo_env_tag_fails_def demo_defs)
  from a b c g st fxs
    tag_write_failure_is_swallowed [OF a b c, of default_state "[]" no_result "[]" "[t1, t2]"
      "[Log Warning ''Failed to fetch transactions for account Savings: connection reset'']" No_file]
  show ?thesis
    by (simp add: demo_env_tag_fails_def demo_defs accepted_def transactionsToProcess_def slice0_def)
qed

section \<open>State Store: saving\<close>

text \<open>
  C8, as the code has it. A run that finds eligible transactions adds its counts to the
  statistics (the paid total is left alone), stamps \<^verbatim>\<open>last_processing\<close> and writes
  the whole state: when the write succeeds the file is the snapshot of the state the
  run ends with; when it fails the failure is an error line in the log and the run
  still returns its counts. A run that finds no eligible transaction returns zero
  counts and touches neither the state nor the file.
\<close>

theorem run_statistics_and_save:
  assumes "budget_init e = None" and "fetchHPTransactions cfg e = (Inr txs, fx)"
  shows "(txs \<noteq> [] \<longrightarrow>
            (\<exists>r. result (processAllTransactions cfg e s f) = Inr r \<and>
                  statistics (state (processAllTransactions cfg e s f)) =
                    \<lparr>total_processed = total_processed (statistics s) + processed r,
                     total_submitted = total_submitted (statistics s) + submitted r,
                     total_paid = total_paid (statistics s),
                     total_failed = total_failed (statistics s) + failed r\<rparr>) \<and>
            last_processing (state (processAllTransactions cfg e s f)) = Some (now e) \<and>
            (writeFileSync e = Written \<longrightarrow>
               disk (processAllTransactions cfg e s f) =
                 Snapshot (state (processAllTransactions cfg e s f))) \<and>
            (\<forall>msg. writeFileSync e = Open_failed msg \<or>
                   (\<exists>parse_msg. writeFileSync e = Write_failed msg parse_msg) \<longrightarrow>
               Log Error (''Failed to save state: '' @ msg)
                 \<in> set (effects (processAllTransactions cfg e s f))))
   \<and> (txs = [] \<longrightarrow>
          result (processAllTransactions cfg e s f) = Inr no_result \<and>
          state (processAllTransactions cfg e s f) = s \<and>
          disk (processAllTransactions cfg e s f) = f)"
proof -
  have empty: "result (processAllTransactions cfg e s f) = Inr no_result \<and>
          state (processAllTransactions cfg e s f) = s \<and>
          disk (processAllTransactions cfg e s f) = f" if "txs = []"
    using that assms by (simp add: processAllTransactions_def)
  have full:
    "(\<exists>r. result (processAllTransactions cfg e s f) = Inr r \<and>
                  statistics (state (processAllTransactions cfg e s f)) =
                    \<lparr>total_processed = total_processed (statistics s) + processed r,
                     total_submitted = total_submitted (statistics s) + submitted r,
                     total_paid = total_paid (statistics s),
                     total_failed = total_failed (statistics s) + failed r\<rparr>) \<and>
            last_processing (state (processAllTransactions cfg e s f)) = Some (now e) \<and>
            (writeFileSync e = Written \<longrightarrow>
               disk (processAllTransactions cfg e s f) =
                 Snapshot (state (processAllTransactions cfg e s f))) \<and>
            (\<forall>msg. writeFileSync e = Open_failed msg \<or>
                   (\<exists>parse_msg. writeFileSync e = Write_failed msg parse_msg) \<longrightarrow>
               Log Error (''Failed to save state: '' @ msg)
                 \<in> set (effects (processAllTransactions cfg e s f)))"
    if ne: "txs \<noteq> []"
  proof -
    let ?loop = "process_loop cfg e (transactionsToProcess cfg txs) s no_result []"
    let ?s2 = "add_statistics (fst (snd ?loop)) (fst ?loop)"
    note out = run_outcome [OF assms ne, of s f]
    have stats: "statistics (fst (saveState e ?s2 f)) =
        \<lparr>total_processed = total_processed (statistics s) + processed (fst (snd ?loop)),
         total_submitted = total_submitted (statistics s) + submitted (fst (snd ?loop)),
         total_paid = total_paid (statistics s),
         total_failed = total_failed (statistics s) + failed (fst (snd ?loop))\<rparr>"
      using process_loop_frame [of cfg e "transactionsToProcess cfg txs" s no_result "[]"]
      by (cases "statistics s")
        (simp add: saveState_def add_statistics_def Let_def split: write_outcome.splits)
    have stamp: "last_processing (fst (saveState e ?s2 f)) = Some (now e)"
      by (simp add: saveState_def Let_def split: write_outcome.splits)
    have written: "fst (snd (saveState e ?s2 f)) = Snapshot (fst (saveState e ?s2 f))"
      if "writeFileSync e = Written"
      using that by (simp add: saveState_def Let_def)
    have refused:
      "Log Error (''Failed to save state: '' @ msg) \<in> set (snd (snd (saveState e ?s2 f)))"
      if "writeFileSync e = Open_failed msg \<or>
          (\<exists>parse_msg. writeFileSync e = Write_failed msg parse_msg)" for msg
      using that by (auto simp: saveState_def Let_def)
    from stats stamp written refused show ?thesis
      unfolding out by (simp add: Let_def)
  qed
  from empty full show ?thesis by blast
qed

theorem run_statistics_and_save_witness:
  "budget_init (demo_env [t1, t2]) = None
   \<and> fst (fetchHPTransactions demo_cfg (demo_env [t1, t2])) = Inr [t1, t2]
   \<and> [t1, t2] \<noteq> []
   \<and> writeFileSync (demo_env [t1, t2]) = Written
   \<and> statistics (state (processAllTransactions demo_cfg (demo_env [t1, t2]) default_state No_file)) =
       \<lparr>total_processed = 2, total_submitted = 2, total_paid = 0, total_failed = 0\<rparr>
   \<and> disk (processAllTransactions demo_cfg (demo_env [t1, t2]) default_state No_file) =
       Snapshot (state (processAllTransactions demo_cfg (demo_env [t1, t2]) default_state No_file))
   \<and> last_processing (state (processAllTransactions demo_cfg (demo_env [t1, t2]) default_state
        No_file)) = Some ''2024-01-10T06:00:00.000Z''
   \<and> writeFileSync (demo_env_disk_full [t1, t2]) =
        Write_failed ''ENOSPC: no space left on device'' ''Unexpected end of JSON input''
   \<and> Log Error ''Failed to save state: ENOSPC: no space left on device''
        \<in> set (effects (processAllTransactions demo_cfg (demo_env_disk_full [t1, t2])
             default_state No_file))
   \<and> result (processAllTransactions demo_cfg (demo_env_disk_full [t1, t2]) default_state No_file) =
        Inr \<lparr>processed = 2, submitted = 2, failed = 0\<rparr>
   \<and> fst (fetchHPTransactions demo_cfg (demo_env [])) = Inr []
   \<and> state (processAllTransactions demo_cfg (demo_env []) default_state No_file) = default_state"
proof -
  let ?e = "demo_env [t1, t2]"
  let ?e' = "demo_env_disk_full [t1, t2]"
  let ?w = "[Log Warning ''Failed to fetch transactions for account Savings: connection reset'']"
  have i: "budget_init ?e = None" "budget_init ?e' = None" "budget_init (demo_env []) = None"
    by (simp_all add: demo_env_disk_full_def demo_defs)
  have g: "fetchHPTransactions demo_cfg ?e = (Inr [t1, t2], ?w)"
    by (simp add: run_defs demo_defs)
  have g': "fetchHPTransactions demo_cfg ?e' = (Inr [t1, t2], ?w)"
    by (simp add: run_defs demo_env_disk_full_def demo_defs)
  have g0: "fetchHPTransactions demo_cfg (demo_env []) = (Inr [], ?w)"
    by (simp add: run_defs demo_defs)
  have st: "statistics (state (processAllTransactions demo_cfg ?e default_state No_file)) =
       \<lparr>total_processed = 2, total_submitted = 2, total_paid = 0, total_failed = 0\<rparr>"
    by (simp add: run_defs demo_defs)
  have r': "result (processAllTransactions demo_cfg ?e' default_state No_file) =
        Inr \<lparr>processed = 2, submitted = 2, failed = 0\<rparr>"
    by (simp add: run_defs demo_env_disk_full_def demo_defs)
  have w': "writeFileSync ?e' =
      Write_failed ''ENOSPC: no space left on device'' ''Unexpected end of JSON input''"
    by (simp add: demo_env_disk_full_def demo_defs)
  have l': "Log Error (''Failed to save state: '' @ ''ENOSPC: no space left on device'')
      \<in> set (effects (processAllTransactions demo_cfg ?e' default_state No_file))"
    using run_statistics_and_save [OF i(2) g', of default_state No_file] w' by blast
  from i g g0 st r' w' l'
    run_statistics_and_save [OF i(1) g, of default_state No_file]
    run_statistics_and_save [OF i(3) g0, of default_state No_file]
  show ?thesis
    by (simp add: demo_defs)
qed

text \<open>
  The claim as stated fails for a run without eligible transactions: here the ledger
  returns no transaction, the run returns zero counts, and no state file exists after
  it, where the claim has the state saved.
\<close>

theorem empty_run_is_not_saved:
  "result (main demo_cfg (demo_env []) No_file) = Inr \<lparr>processed = 0, submitted = 0, failed = 0\<rparr>
   \<and> disk (main demo_cfg (demo_env []) No_file) = No_file
   \<and> disk (main demo_cfg (demo_env []) No_file) \<noteq>
       Snapshot (state (main demo_cfg (demo_env []) No_file))"
  by (simp add: run_defs demo_defs)

section \<open>Calls of the Export Client\<close>

lemma processTransaction_xano:
  "set (xano_calls (snd (snd (processTransaction cfg e s t)))) \<subseteq> {txn_id t}"
  by (simp add: processTransaction_def submitToXano_def addNoteTag_def Let_def xano_calls_append
      split: sum.splits option.splits)

lemma process_loop_xano:
  "set (xano_calls (snd (snd (process_loop cfg e ts s r fx)))) \<subseteq>
     set (xano_calls fx) \<union> txn_id ` set ts"
proof (induction ts arbitrary: s r fx)
  case Nil
  show ?case by simp
next
  case (Cons t ts)
  obtain res s' fx' where step: "processTransaction cfg e s t = (res, s', fx')"
    by (cases "processTransaction cfg e s t") auto
  from processTransaction_xano [of cfg e s t] step
  have "set (xano_calls fx') \<subseteq> {txn_id t}" by simp
  with Cons.IH [of s' "tally res r" "fx @ fx'"] step show ?case
    by (auto simp: xano_calls_append)
qed

lemma transactionsToProcess_subset: "set (transactionsToProcess cfg txs) \<subseteq> set txs"
  by (simp add: transactionsToProcess_def slice0_def Let_def set_take_subset)

text \<open>Every eligible transaction of a run was returned by some account and passed the filter.\<close>

lemma fetchHPTransactions_sound:
  assumes "fetchHPTransactions cfg e = (Inr txs, fx)" and "u \<in> set txs"
  shows "eligible u \<and> (\<exists>a ts. getTransactions e a = Inr ts \<and> u \<in> set ts)"
proof -
  have src: "\<exists>a ts. getTransactions e a = Inr ts \<and> u \<in> set ts"
    if "u \<in> set (fetched e accts)" for accts
  proof -
    from that obtain a where "u \<in> set (account_transactions e a)"
      by (auto simp: fetched_def)
    then have "getTransactions e (acc_id a) = Inr (account_transactions e a)"
      by (cases "getTransactions e (acc_id a)") (simp_all add: account_transactions_def)
    with \<open>u \<in> set (account_transactions e a)\<close> show ?thesis by blast
  qed
  have cand: "u \<in> set (fetched e accts)"
    if "fetch_accounts e ids accts [] [] = (allT, fx')" and "u \<in> set allT" for ids accts allT fx'
    using that candidates_eq [of e ids accts] by auto
  from assms show ?thesis
    by (auto simp: fetchHPTransactions_def fetch_failed_def Let_def
        split: sum.splits option.splits if_splits prod.splits dest!: cand src)
qed

lemma run_xano_calls:
  assumes "i \<in> set (xano_calls (effects (main cfg e f)))"
  shows "\<exists>txs fx u. fetchHPTransactions cfg e = (Inr txs, fx) \<and> u \<in> set txs \<and> txn_id u = i"
proof -
  obtain s0 fx0 where load: "loadState f = (s0, fx0)"
    by (cases "loadState f") auto
  then have "xano_calls fx0 = []"
    by (auto simp: loadState_def split: sum.splits option.splits)
  with assms load have run: "i \<in> set (xano_calls (effects (processAllTransactions cfg e s0 f)))"
    by (simp add: main_def Let_def xano_calls_append)
  obtain res fx where fetch: "fetchHPTransactions cfg e = (res, fx)"
    by (cases "fetchHPTransactions cfg e") auto
  note quiet = fetchHPTransactions_quiet [OF fetch]
  show ?thesis
  proof (cases "budget_init e")
    case (Some msg)
    with run show ?thesis
      by (simp add: processAllTransactions_def run_failed_def)
  next
    case None
    show ?thesis
    proof (cases res)
      case (Inl msg)
      with None fetch quiet run show ?thesis
        by (simp add: processAllTransactions_def run_failed_def xano_calls_append)
    next
      case (Inr txs)
      show ?thesis
      proof (cases "txs = []")
        case True
        with None fetch Inr quiet run show ?thesis
          by (simp add: processAllTransactions_def xano_calls_append)
      next
        case False
        from fetch Inr have fetch': "fetchHPTransactions cfg e = (Inr txs, fx)" by simp
        from run quiet saveState_quiet [of e _ f]
        have "i \<in> set (xano_calls (snd (snd (process_loop cfg e (transactionsToProcess cfg txs)
                 s0 no_result []))))"
          unfolding run_outcome [OF None fetch' False, of s0 f]
          by (simp add: Let_def xano_calls_append)
        with process_loop_xano [of cfg e "transactionsToProcess cfg txs" s0 no_result "[]"]
          transactionsToProcess_subset [of cfg txs]
        have "i \<in> txn_id ` set txs" by auto
        with fetch' show ?thesis by auto
      qed
    qed
  qed
qed

text \<open>
  C1, as the code has it. The guard against a second submission is the tag in the
  ledger notes and nothing else: when every transaction with identifier \<open>i\<close> that the
  accounts return carries \<^verbatim>\<open>#HP-Submitted\<close> or \<^verbatim>\<open>#HP-Paid\<close> in its notes, a run
  makes no call of the Export Client for \<open>i\<close>, whatever the state file records for it.
\<close>

theorem tagged_transaction_is_not_resubmitted:
  assumes "\<forall>a ts u. getTransactions e a = Inr ts \<and> u \<in> set ts \<and> txn_id u = i \<longrightarrow> carries_marker u"
  shows "i \<notin> set (xano_calls (effects (main cfg e f)))"
proof
  assume "i \<in> set (xano_calls (effects (main cfg e f)))"
  from run_xano_calls [OF this] obtain txs fx u where
    fetch: "fetchHPTransactions cfg e = (Inr txs, fx)" and u: "u \<in> set txs" "txn_id u = i"
    by blast
  from fetchHPTransactions_sound [OF fetch u(1)] obtain a ts where
    "eligible u" "getTransactions e a = Inr ts" "u \<in> set ts"
    by blast
  with u(2) assms show False
    by (auto simp: eligible_iff)
qed

theorem tagged_transaction_is_not_resubmitted_witness:
  "status_of (fst (loadState (disk (main demo_cfg (demo_env [t1]) No_file)))) ''t1'' = Some Submitted
   \<and> getTransactions (demo_env [t_tagged]) ''acc1'' = Inr [t_tagged]
   \<and> txn_id t_tagged = ''t1''
   \<and> tx_notes t_tagged = Some ''#HP-Submitted''
   \<and> ''t1'' \<notin> set (xano_calls (effects (main demo_cfg (demo_env [t_tagged])
        (disk (main demo_cfg (demo_env [t1]) No_file)))))"
proof -
  have h: "\<forall>a ts u. getTransactions (demo_env [t_tagged]) a = Inr ts \<and> u \<in> set ts \<and>
      txn_id u = ''t1'' \<longrightarrow> carries_marker u"
    by (auto simp: demo_defs carries_marker_includes or_empty_def split: if_splits)
  have st: "status_of (fst (loadState (disk (main demo_cfg (demo_env [t1]) No_file)))) ''t1'' =
      Some Submitted"
    by (simp add: status_of_def run_defs demo_defs)
  from st tagged_transaction_is_not_resubmitted [OF h, of demo_cfg
      "disk (main demo_cfg (demo_env [t1]) No_file)"]
  show ?thesis
    by (simp add: demo_defs)
qed

text \<open>
  The claim as stated fails when the tag write failed. The first run submits \<open>t1\<close>, the
  ledger refuses the tag, and the saved state records \<open>t1\<close> as \<open>Submitted\<close>; the second
  run finds \<open>t1\<close> without tag and calls the Export Client for it again.
\<close>

theorem submitted_but_untagged_is_resubmitted:
  "status_of (fst (loadState (disk (main demo_cfg (demo_env_tag_fails [t1]) No_file)))) ''t1'' =
     Some Submitted
   \<and> xano_calls (effects (main demo_cfg (demo_env_tag_fails [t1]) No_file)) = [''t1'']
   \<and> xano_calls (effects (main demo_cfg (demo_env_tag_fails [t1])
        (disk (main demo_cfg (demo_env_tag_fails [t1]) No_file)))) = [''t1'']"
  by (simp add: status_of_def run_defs demo_env_tag_fails_def demo_defs)

section \<open>Tracked transactions across runs\<close>















section \<open>The manual trigger\<close>

text \<open>
  C5, as the code has it. The handler of the manual trigger never looks at the runs in
  progress: every request starts one more processor, whatever the number already
  running, so that \<open>n\<close> requests in a row leave \<open>n\<close> more processors running side by
  side; the answer it writes is 200, 408 or 500 according to how that processor ends,
  never the conflict status 409. The handler of the bundled dashboard answers every
  request with 200 and zero counts.
\<close>

theorem manual_trigger_always_spawns:
  "running (hp_process_post srv) = running srv + 1
   \<and> running ((hp_process_post ^^ n) srv) = running srv + n
   \<and> hp_process_status c \<in> {200, 408, 500}
   \<and> hp_process_status c \<noteq> 409
   \<and> hp_process_mock = (200, \<lparr>processed = 0, submitted = 0, failed = 0\<rparr>)"
proof -
  have many: "running ((hp_process_post ^^ n) srv) = running srv + n"
    by (induction n) (simp_all add: hp_process_post_def)
  have "hp_process_status c \<in> {200, 408, 500}"
    by (cases c) (simp_all add: hp_process_status_def)
  with many show ?thesis
    by (auto simp: hp_process_post_def hp_process_mock_def)
qed

text \<open>
  The claim as stated fails: with one processor running, a trigger is not rejected but
  starts a second one beside it, and is answered 200 when that one exits with code 0
  and a JSON line.
\<close>

theorem trigger_during_run_is_not_rejected:
  "running (hp_process_post \<lparr>running = 1\<rparr>) = 2
   \<and> hp_process_status (Closed 0 ''{}'' True) = 200"
  by (simp add: hp_process_post_def hp_process_status_def)

end
